theory Spec2Isabelle
  imports Complex_Main "HOL-Library.Log_Nat"
begin

section \<open>The tensor-array library, taken as a parameter\<close>

text \<open>
  \<^verbatim>\<open>src/tmps/star/tpmps.py\<close> drives a matrix-product array through routines of
  \<^verbatim>\<open>mpnum\<close> and of \<^verbatim>\<open>tmps.utils\<close>. Their numerics are not part of the file under study,
  so the model takes them as one record of functions: \<open>'c\<close> is the value of a chain,
  \<open>'o\<close> a local operator, \<open>'k\<close> a dictionary of compression keyword arguments and
  \<open>'f\<close> a canonical-form target. Every theorem below holds for every such record.
  A library routine that raises is not modelled. What the library computes inside is
  not modelled either; the float arithmetic of the file itself is, in the next section.
\<close>

type_synonym ref = nat
type_synonym axes_t = "(nat \<times> nat) \<times> (nat \<times> nat)"

record ('c, 'o, 'k, 'f) lib =
  lib_canonicalize_to :: "'f \<Rightarrow> 'c \<Rightarrow> 'c"
  lib_compress_pmps :: "'f \<Rightarrow> 'k \<Rightarrow> 'c \<Rightarrow> 'c"
  lib_compress_pmps_sites :: "real \<Rightarrow> int \<Rightarrow> bool \<Rightarrow> 'f \<Rightarrow> 'c \<Rightarrow> 'c"
  lib_partialdot :: "'o \<Rightarrow> 'c \<Rightarrow> int \<Rightarrow> axes_t \<Rightarrow> 'c"
  lib_compress :: "'k \<Rightarrow> 'c \<Rightarrow> 'c \<times> real"
  lib_lc_compress :: "'c \<Rightarrow> int \<Rightarrow> 'c"
  lib_norm :: "'c \<Rightarrow> real"
  lib_itruediv :: "'c \<Rightarrow> real \<Rightarrow> 'c"
  lib_len :: "'o \<Rightarrow> nat"

section \<open>Python floats\<close>

text \<open>
  The file does float arithmetic of its own in three places: the products of overlaps
  (lines 73, 85 and 90) and the sum of Trotter errors (line 95). A Python float is an
  IEEE 754 binary64 number, and each operation returns the exact result rounded to the
  nearest such number, ties to the even mantissa. A float is a real number here and
  \<open>float_round\<close> is that rounding, written so that it computes: 53 bits of mantissa,
  and below \<open>2 powi (- 1022)\<close> the fixed spacing \<open>2 powi (- 1074)\<close> of the subnormal
  numbers, so that a small enough product rounds to 0. Results beyond the largest float, where Python gives \<^verbatim>\<open>inf\<close>, are
  not modelled. The integers 0 and 1 that the attributes start with behave in these
  operations as the floats 0.0 and 1.0 do.
\<close>

definition round_half_even :: "real \<Rightarrow> int" where
  "round_half_even y =
     (if y - of_int \<lfloor>y\<rfloor> < 1 / 2 then \<lfloor>y\<rfloor>
      else if 1 / 2 < y - of_int \<lfloor>y\<rfloor> then \<lfloor>y\<rfloor> + 1
      else if even \<lfloor>y\<rfloor> then \<lfloor>y\<rfloor> else \<lfloor>y\<rfloor> + 1)"

text \<open>
  For a positive \<open>x\<close>, the integer \<open>k\<close> with \<open>2 powi k \<le> x < 2 powi (k + 1)\<close>,
  computed from the number of bits of an integer; it is the floor of the binary
  logarithm of \<open>x\<close> (lemma \<open>floor_log2_log\<close> below).
\<close>

definition floor_log2 :: "real \<Rightarrow> int" where
  "floor_log2 x = (if 1 \<le> x then bitlen \<lfloor>x\<rfloor> - 1 else - bitlen (\<lceil>1 / x\<rceil> - 1))"

text \<open>The exponent of the last mantissa bit of the floats around \<open>x\<close>.\<close>

definition ulp_exponent :: "real \<Rightarrow> int" where
  "ulp_exponent x = max (floor_log2 \<bar>x\<bar> - 52) (- 1074)"

definition float_round :: "real \<Rightarrow> real" where
  "float_round x =
     (if x = 0 then 0
      else of_int (round_half_even (x / 2 powi ulp_exponent x)) * 2 powi ulp_exponent x)"

definition float_add :: "real \<Rightarrow> real \<Rightarrow> real" where
  "float_add x y = float_round (x + y)"

definition float_mul :: "real \<Rightarrow> real \<Rightarrow> real" where
  "float_mul x y = float_round (x * y)"

section \<open>Objects: a store of chains and a log of library calls\<close>

text \<open>
  Python passes chains by reference and most routines change their argument in place,
  so a chain lives in a store at an address. \<open>next_ref\<close> is the first unused address.
  \<open>calls\<close> is a log of the library routines that ran, in order, each with the address
  it was given; the source has no such field, nothing reads it, and it is there only so
  that a theorem can say which routine ran.
\<close>

datatype call =
    CanonicalizeTo ref
  | CompressPmps ref
  | CompressPmpsSites ref
  | PartialDot int ref ref
  | Compress ref
  | LcCompress ref int
  | NormDiv ref

record 'c store =
  heap :: "ref \<Rightarrow> 'c"
  next_ref :: ref
  calls :: "call list"

definition in_place :: "ref \<Rightarrow> ('c \<Rightarrow> 'c) \<Rightarrow> call \<Rightarrow> 'c store \<Rightarrow> 'c store" where
  "in_place r f c w = w\<lparr>heap := (heap w)(r := f (heap w r)), calls := calls w @ [c]\<rparr>"

text \<open>\<^verbatim>\<open>canonicalize_to(mpa, to_cform=...)\<close>: in place.\<close>

definition canonicalize_to :: "('c, 'o, 'k, 'f) lib \<Rightarrow> ref \<Rightarrow> 'f \<Rightarrow> 'c store \<Rightarrow> 'c store" where
  "canonicalize_to lb r cf w = in_place r (lib_canonicalize_to lb cf) (CanonicalizeTo r) w"

text \<open>\<^verbatim>\<open>compress_pmps(mpa, to_cform=..., **kwargs)\<close>: in place.\<close>

definition compress_pmps :: "('c, 'o, 'k, 'f) lib \<Rightarrow> ref \<Rightarrow> 'f \<Rightarrow> 'k \<Rightarrow> 'c store \<Rightarrow> 'c store" where
  "compress_pmps lb r cf kw w = in_place r (lib_compress_pmps lb cf kw) (CompressPmps r) w"

text \<open>\<^verbatim>\<open>compress_pmps_sites(mpa, relerr=..., rank=..., stable=..., to_cform=...)\<close>: in place.\<close>

definition compress_pmps_sites ::
  "('c, 'o, 'k, 'f) lib \<Rightarrow> ref \<Rightarrow> real \<Rightarrow> int \<Rightarrow> bool \<Rightarrow> 'f \<Rightarrow> 'c store \<Rightarrow> 'c store" where
  "compress_pmps_sites lb r relerr rk stbl cf w =
     in_place r (lib_compress_pmps_sites lb relerr rk stbl cf) (CompressPmpsSites r) w"

text \<open>\<^verbatim>\<open>self.lc.compress(mpa, start_at)\<close>: in place.\<close>

definition lc_compress :: "('c, 'o, 'k, 'f) lib \<Rightarrow> ref \<Rightarrow> int \<Rightarrow> 'c store \<Rightarrow> 'c store" where
  "lc_compress lb r start_at w =
     in_place r (\<lambda>c. lib_lc_compress lb c start_at) (LcCompress r start_at) w"

text \<open>\<^verbatim>\<open>mpa.compress(**kwargs)\<close>: in place, and returns the overlap.\<close>

definition compress :: "('c, 'o, 'k, 'f) lib \<Rightarrow> ref \<Rightarrow> 'k \<Rightarrow> 'c store \<Rightarrow> 'c store \<times> real" where
  "compress lb r kw w =
     (in_place r (\<lambda>c. fst (lib_compress lb kw c)) (Compress r) w,
      snd (lib_compress lb kw (heap w r)))"

text \<open>\<^verbatim>\<open>mp.partialdot(mpo, mpa, start_at=..., axes=...)\<close>: returns a new array.\<close>

definition partialdot ::
  "('c, 'o, 'k, 'f) lib \<Rightarrow> 'o \<Rightarrow> ref \<Rightarrow> int \<Rightarrow> axes_t \<Rightarrow> 'c store \<Rightarrow> ref \<times> 'c store" where
  "partialdot lb mpo r start_at ax w =
     (next_ref w,
      w\<lparr>heap := (heap w)(next_ref w := lib_partialdot lb mpo (heap w r) start_at ax),
        next_ref := Suc (next_ref w),
        calls := calls w @ [PartialDot start_at r (next_ref w)]\<rparr>)"

text \<open>
  \<^verbatim>\<open>mpa /= mp.norm(mpa)\<close>: the norm is read, then the array is divided in place (the
  spec's tensor-array contract names the scalar division as in place), so the address
  stays the same.
\<close>

definition itruediv_norm :: "('c, 'o, 'k, 'f) lib \<Rightarrow> ref \<Rightarrow> 'c store \<Rightarrow> 'c store" where
  "itruediv_norm lb r w = in_place r (\<lambda>c. lib_itruediv lb c (lib_norm lb c)) (NormDiv r) w"

section \<open>The propagator and the orchestrator's attributes\<close>

record ('o, 'f) propagator =
  prop_L :: int
  prop_system_index :: int
  ancilla_sites :: bool
  build_adj :: bool
  prop_to_cform :: 'f
  step_trotter_error :: real
  trotter_steps :: "(int \<times> 'o) list"

text \<open>
  The attributes that the base class \<^verbatim>\<open>StarTMPBase\<close> derives from
  \<^verbatim>\<open>state_compression_kwargs\<close>. The base class is not among the sources; \<open>evolve\<close> only
  reads these attributes, so they are inputs of the model.
\<close>

record 'k compression_config =
  state_compression_kwargs :: 'k
  full_compression :: bool
  final_compression :: bool
  canonicalize_every_step :: bool
  compress_sites_relerr :: real
  compress_sites_rank :: int
  compress_sites_stable :: bool
  compress_sites_step :: int

record ('o, 'k, 'f) tmpbase = "'k compression_config" +
  psi_t :: ref
  propagator :: "('o, 'f) propagator"
  t0 :: real
  stepno :: int

record ('o, 'k, 'f) tpmps = "('o, 'k, 'f) tmpbase" +
  mpa_type :: string
  system_index :: int
  pmps_compression_step :: int
  axes :: axes_t
  to_cform :: 'f
  last_overlap :: real
  cumulative_overlap :: real
  base_overlap :: real
  trotter_error :: real

datatype error = AssertionError

section \<open>The base class\<close>

text \<open>
  Modelled from the spec: \<^verbatim>\<open>StarTMPBase.__init__\<close>, which is not among the sources.
  It stores the initial chain (the object itself, not a copy), the propagator, the
  compression configuration and the initial time, and starts the step counter at 0.
  Its check that the chain fits the propagator is not modelled: inputs are taken to fit.
\<close>

definition base_init ::
  "ref \<Rightarrow> ('o, 'f) propagator \<Rightarrow> 'k compression_config \<Rightarrow> real \<Rightarrow> ('o, 'k, 'f) tmpbase" where
  "base_init psi_0 p cfg t =
     \<lparr>state_compression_kwargs = state_compression_kwargs cfg,
      full_compression = full_compression cfg,
      final_compression = final_compression cfg,
      canonicalize_every_step = canonicalize_every_step cfg,
      compress_sites_relerr = compress_sites_relerr cfg,
      compress_sites_rank = compress_sites_rank cfg,
      compress_sites_stable = compress_sites_stable cfg,
      compress_sites_step = compress_sites_step cfg,
      psi_t = psi_0, propagator = p, t0 = t, stepno = 0\<rparr>"

text \<open>
  Modelled from the spec: \<^verbatim>\<open>StarTMPBase.reset\<close>, which is not among the sources.
  A new initial state, when one is given, replaces the chain and the step counter
  restarts; without one the chain is kept. New compression parameters, when given,
  replace the old ones; without them the old ones are kept. Nothing else changes.
\<close>

definition base_reset ::
  "ref option \<Rightarrow> 'k compression_config option \<Rightarrow>
   ('o, 'k, 'f, 'z) tmpbase_scheme \<Rightarrow> ('o, 'k, 'f, 'z) tmpbase_scheme" where
  "base_reset psi_0 cfg s =
     (let s1 = (case psi_0 of None \<Rightarrow> s | Some r \<Rightarrow> s\<lparr>psi_t := r, stepno := 0\<rparr>)
      in case cfg of
           None \<Rightarrow> s1
         | Some c \<Rightarrow>
             s1\<lparr>state_compression_kwargs := state_compression_kwargs c,
                full_compression := full_compression c,
                final_compression := final_compression c,
                canonicalize_every_step := canonicalize_every_step c,
                compress_sites_relerr := compress_sites_relerr c,
                compress_sites_rank := compress_sites_rank c,
                compress_sites_stable := compress_sites_stable c,
                compress_sites_step := compress_sites_step c\<rparr>)"

section \<open>StarTPMPS\<close>

type_synonym ('c, 'o, 'k, 'f) world = "('o, 'k, 'f) tpmps \<times> 'c store"

subsection \<open>Normalization (lines 98 to 111)\<close>

definition normalize_state_internal ::
  "('c, 'o, 'k, 'f) lib \<Rightarrow> ('c, 'o, 'k, 'f) world \<Rightarrow> ('c, 'o, 'k, 'f) world" where
  "normalize_state_internal lb sw = (fst sw, itruediv_norm lb (psi_t (fst sw)) (snd sw))"

definition normalize_state ::
  "('c, 'o, 'k, 'f) lib \<Rightarrow> ('c, 'o, 'k, 'f) world \<Rightarrow> ('c, 'o, 'k, 'f) world" where
  "normalize_state lb sw = (fst sw, itruediv_norm lb (psi_t (fst sw)) (snd sw))"

subsection \<open>Construction (lines 14 to 56)\<close>

text \<open>
  The two assertions come after the base class has stored its attributes and before
  any library routine runs. A failed assertion leaves no object, so the attributes
  assigned before it are not observable and the record is built in one piece.
\<close>

definition init ::
  "('c, 'o, 'k, 'f) lib \<Rightarrow> 'c store \<Rightarrow> ref \<Rightarrow> ('o, 'f) propagator \<Rightarrow> 'k compression_config \<Rightarrow>
   real \<Rightarrow> 'k option \<Rightarrow> error + ('c, 'o, 'k, 'f) world" where
  "init lb w psi_0 p cfg t psi_0_compression_kwargs =
     (let b = base_init psi_0 p cfg t in
      if \<not> ancilla_sites (propagator b) then Inl AssertionError
      else if build_adj (propagator b) then Inl AssertionError
      else
        let cf = prop_to_cform p;
            w1 = (case psi_0_compression_kwargs of
                    None \<Rightarrow> canonicalize_to lb (psi_t b) cf w
                  | Some kw \<Rightarrow> compress_pmps lb (psi_t b) cf kw w);
            s = tmpbase.extend b
                  (tpmps.fields ''pmps'' (prop_system_index p) 1 ((1, 3), (0, 1)) cf 1 1 1 0)
        in Inr (normalize_state lb (s, w1)))"

subsection \<open>One time step (lines 58 to 96)\<close>

text \<open>
  The condition of line 71 and of line 77, the same expression in both places:
  \<^verbatim>\<open>(start_at == self.propagator.L - 2 or start_at == 0) and start_at != last_start_at\<close>.
\<close>

definition sweep_turn :: "int \<Rightarrow> int \<Rightarrow> int \<Rightarrow> bool" where
  "sweep_turn n start_at last_start_at \<longleftrightarrow>
     (start_at = n - 2 \<or> start_at = 0) \<and> start_at \<noteq> last_start_at"

text \<open>Line 69: the contraction yields a new array, which becomes \<^verbatim>\<open>self.psi_t\<close>.\<close>

definition contract ::
  "('c, 'o, 'k, 'f) lib \<Rightarrow> int \<Rightarrow> 'o \<Rightarrow> ('c, 'o, 'k, 'f) world \<Rightarrow> ('c, 'o, 'k, 'f) world" where
  "contract lb start_at mpo sw =
     (case partialdot lb mpo (psi_t (fst sw)) start_at (axes (fst sw)) (snd sw) of
        (r, w) \<Rightarrow> ((fst sw)\<lparr>psi_t := r\<rparr>, w))"

text \<open>Lines 70 to 76: compression of the state, on the world and the step's overlap.\<close>

definition state_compression ::
  "('c, 'o, 'k, 'f) lib \<Rightarrow> int \<Rightarrow> 'o \<Rightarrow> int \<Rightarrow>
   ('c, 'o, 'k, 'f) world \<times> real \<Rightarrow> ('c, 'o, 'k, 'f) world \<times> real" where
  "state_compression lb start_at mpo last_start_at swo =
     (case swo of ((s, w), overlap) \<Rightarrow>
        if full_compression s then
          if sweep_turn (prop_L (propagator s)) start_at last_start_at then
            (case compress lb (psi_t s) (state_compression_kwargs s) w of
               (w', f) \<Rightarrow> ((s, w'), float_mul overlap f))
          else ((s, w), overlap)
        else
          if 1 < lib_len lb mpo then ((s, lc_compress lb (psi_t s) start_at w), overlap)
          else ((s, w), overlap))"

text \<open>Lines 77 to 82: the counter of sweep turns and the compression of the ancilla sites.\<close>

definition sites_compression ::
  "('c, 'o, 'k, 'f) lib \<Rightarrow> int \<Rightarrow> int \<Rightarrow> ('c, 'o, 'k, 'f) world \<Rightarrow> ('c, 'o, 'k, 'f) world" where
  "sites_compression lb start_at last_start_at sw =
     (case sw of (s, w) \<Rightarrow>
        if sweep_turn (prop_L (propagator s)) start_at last_start_at then
          let s1 = s\<lparr>pmps_compression_step := pmps_compression_step s + 1\<rparr> in
          if pmps_compression_step s1 - 1 = compress_sites_step s1 then
            (s1\<lparr>pmps_compression_step := 1\<rparr>,
             compress_pmps_sites lb (psi_t s1) (compress_sites_relerr s1) (compress_sites_rank s1)
               (compress_sites_stable s1) (to_cform s1) w)
          else (s1, w)
        else (s, w))"

text \<open>
  Lines 68 to 83: one pass of the loop. The loop's variables are the world, the step's
  overlap and \<^verbatim>\<open>last_start_at\<close>.
\<close>

definition evolve_body ::
  "('c, 'o, 'k, 'f) lib \<Rightarrow> ('c, 'o, 'k, 'f) world \<times> real \<times> int \<Rightarrow> int \<times> 'o \<Rightarrow>
   ('c, 'o, 'k, 'f) world \<times> real \<times> int" where
  "evolve_body lb st step =
     (case st of (sw, overlap, last_start_at) \<Rightarrow>
      case step of (start_at, mpo) \<Rightarrow>
      case state_compression lb start_at mpo last_start_at
             (contract lb start_at mpo sw, overlap) of
        (sw1, overlap1) \<Rightarrow>
          (sites_compression lb start_at last_start_at sw1, overlap1, start_at))"

text \<open>Lines 84 to 96: what follows the loop.\<close>

definition evolve_finish ::
  "('c, 'o, 'k, 'f) lib \<Rightarrow> ('c, 'o, 'k, 'f) world \<times> real \<Rightarrow> ('c, 'o, 'k, 'f) world" where
  "evolve_finish lb swo =
     (case swo of ((s, w), overlap) \<Rightarrow>
      case (if final_compression s then
              (case compress lb (psi_t s) (state_compression_kwargs s) w of
                 (w', f) \<Rightarrow> (w', float_mul overlap f))
            else if \<not> canonicalize_every_step s then
              (canonicalize_to lb (psi_t s) (to_cform s) w, overlap)
            else (w, overlap)) of
        (w1, overlap1) \<Rightarrow>
      case normalize_state_internal lb (s, w1) of
        (s2, w2) \<Rightarrow>
      let s3 = s2\<lparr>cumulative_overlap := float_mul (cumulative_overlap s2) overlap1\<rparr>;
          s4 = s3\<lparr>last_overlap := overlap1\<rparr>;
          s5 = (if system_index s4 = 0
                then s4\<lparr>pmps_compression_step := pmps_compression_step s4 - 1\<rparr> else s4);
          s6 = s5\<lparr>trotter_error :=
                    float_add (trotter_error s5) (step_trotter_error (propagator s5))\<rparr>
      in (s6\<lparr>stepno := stepno s6 + 1\<rparr>, w2))"

text \<open>
  Lines 64 to 67: the loop's variables as the loop finds them. The step's overlap starts
  at \<^verbatim>\<open>base_overlap\<close> and \<^verbatim>\<open>last_start_at\<close> at the system index.
\<close>

definition evolve_start ::
  "('c, 'o, 'k, 'f) lib \<Rightarrow> ('c, 'o, 'k, 'f) world \<Rightarrow> ('c, 'o, 'k, 'f) world \<times> real \<times> int" where
  "evolve_start lb sw =
     (case sw of (s, w) \<Rightarrow>
      let overlap = base_overlap s;
          last_start_at = system_index s;
          w1 = (if \<not> canonicalize_every_step s
                then canonicalize_to lb (psi_t s) (to_cform s) w else w)
      in ((s, w1), overlap, last_start_at))"

text \<open>Line 68: the loop, run over a list of pairs.\<close>

definition sweep ::
  "('c, 'o, 'k, 'f) lib \<Rightarrow> ('c, 'o, 'k, 'f) world \<Rightarrow> (int \<times> 'o) list \<Rightarrow>
   ('c, 'o, 'k, 'f) world \<times> real \<times> int" where
  "sweep lb sw steps = foldl (evolve_body lb) (evolve_start lb sw) steps"

definition evolve ::
  "('c, 'o, 'k, 'f) lib \<Rightarrow> ('c, 'o, 'k, 'f) world \<Rightarrow> ('c, 'o, 'k, 'f) world" where
  "evolve lb sw =
     (case sweep lb sw (trotter_steps (propagator (fst sw))) of
        (sw2, overlap2, last_start_at2) \<Rightarrow> evolve_finish lb (sw2, overlap2))"

subsection \<open>Reset (lines 135 to 165)\<close>

text \<open>
  \<open>psi_0\<close> is the address of the caller's array or \<open>None\<close>. The second argument stands
  for \<^verbatim>\<open>state_compression_kwargs\<close> as the base class reads it. Line 158 normalizes
  \<^verbatim>\<open>self.psi_t\<close>, which at that point is still the chain held before the call: the new
  one is installed by the base class on line 165.
\<close>

definition reset ::
  "('c, 'o, 'k, 'f) lib \<Rightarrow> ref option \<Rightarrow> 'k compression_config option \<Rightarrow> 'k option \<Rightarrow>
   ('c, 'o, 'k, 'f) world \<Rightarrow> ('c, 'o, 'k, 'f) world" where
  "reset lb psi_0 cfg psi_0_compression_kwargs sw =
     (case (case psi_0 of
              None \<Rightarrow> sw
            | Some r \<Rightarrow>
                (case sw of (s, w) \<Rightarrow>
                 let w1 = (case psi_0_compression_kwargs of
                             None \<Rightarrow> canonicalize_to lb r (to_cform s) w
                           | Some kw \<Rightarrow> compress_pmps lb r (to_cform s) kw w)
                 in case normalize_state lb (s, w1) of
                      (s2, w2) \<Rightarrow>
                        (s2\<lparr>pmps_compression_step := 0, last_overlap := 1,
                            cumulative_overlap := 1, base_overlap := 1,
                            trotter_error := 0, stepno := 0\<rparr>, w2))) of
        (s3, w3) \<Rightarrow> (base_reset psi_0 cfg s3, w3))"

section \<open>A small library and a propagator to run the model on\<close>

text \<open>
  A chain is reduced to three numbers: its norm, one bond rank, and whether it is in
  canonical form. A local operator is its number of sites, and keyword arguments are a
  maximal rank. Contraction doubles norm and rank; truncation to a smaller rank halves
  the norm and reports the overlap one quarter.
\<close>

definition toy_lib :: "(real \<times> nat \<times> bool, nat, nat, unit) lib" where
  "toy_lib =
     \<lparr>lib_canonicalize_to = (\<lambda>cf (a, r, g). (a, r, True)),
      lib_compress_pmps = (\<lambda>cf kw (a, r, g). (a, min r kw, True)),
      lib_compress_pmps_sites = (\<lambda>relerr rk stbl cf (a, r, g). (a, r, True)),
      lib_partialdot = (\<lambda>mpo (a, r, g) start_at ax. (2 * a, 2 * r, False)),
      lib_compress = (\<lambda>kw (a, r, g). if kw < r then ((a / 2, kw, True), 1 / 4)
                                       else ((a, r, True), 1)),
      lib_lc_compress = (\<lambda>(a, r, g) start_at. (a, r, g)),
      lib_norm = (\<lambda>(a, r, g). \<bar>a\<bar>),
      lib_itruediv = (\<lambda>(a, r, g) x. (a / x, r, g)),
      lib_len = (\<lambda>mpo. mpo)\<rparr>"

text \<open>
  The sweep of the spec's scenario: length 5, system index 2, two-site operators. The
  error estimate of one step is the float \<open>2 powi (- 20)\<close>, about one millionth.
\<close>

definition demo_propagator :: "(nat, unit) propagator" where
  "demo_propagator =
     \<lparr>prop_L = 5, prop_system_index = 2, ancilla_sites = True, build_adj = False,
      prop_to_cform = (), step_trotter_error = 1 / 1048576,
      trotter_steps = [(1, 2), (0, 2), (1, 2), (2, 2), (3, 2), (3, 2), (2, 2), (1, 2)]\<rparr>"

definition demo_config :: "nat compression_config" where
  "demo_config =
     \<lparr>state_compression_kwargs = 1, full_compression = True, final_compression = False,
      canonicalize_every_step = False, compress_sites_relerr = 0, compress_sites_rank = 1,
      compress_sites_stable = False, compress_sites_step = 2\<rparr>"

text \<open>Two arrays, at addresses 0 and 1, both of norm 2.\<close>

definition demo_store :: "(real \<times> nat \<times> bool) store" where
  "demo_store = \<lparr>heap = (\<lambda>r. (2, 1, False)), next_ref = 2, calls = []\<rparr>"

text \<open>The orchestrator built on the array at address 0, as \<open>init\<close> leaves it.\<close>

definition demo_tpmps :: "(nat, nat, unit) tpmps" where
  "demo_tpmps =
     tmpbase.extend (base_init 0 demo_propagator demo_config 0)
       (tpmps.fields ''pmps'' 2 1 ((1, 3), (0, 1)) () 1 1 1 0)"

definition demo_world :: "(real \<times> nat \<times> bool, nat, nat, unit) world" where
  "demo_world =
     (demo_tpmps,
      \<lparr>heap = (\<lambda>r. (2, 1, False))(0 := (1, 1, True)), next_ref = 2,
       calls = [CanonicalizeTo 0, NormDiv 0]\<rparr>)"

text \<open>
  The same propagator with the float nearest to one tenth as its error estimate, and the
  orchestrator built on it.
\<close>

definition tenth_propagator :: "(nat, unit) propagator" where
  "tenth_propagator =
     demo_propagator\<lparr>step_trotter_error := 3602879701896397 / 36028797018963968\<rparr>"

definition tenth_world :: "(real \<times> nat \<times> bool, nat, nat, unit) world" where
  "tenth_world = (demo_tpmps\<lparr>propagator := tenth_propagator\<rparr>, snd demo_world)"

text \<open>
  A library whose truncation keeps very little: the overlap it reports is the float
  \<open>2 powi (- 600)\<close>, which is greater than 0 and at most 1.
\<close>

definition lossy_lib :: "(real \<times> nat \<times> bool, nat, nat, unit) lib" where
  "lossy_lib =
     toy_lib\<lparr>lib_compress := (\<lambda>kw (a, r, g). if kw < r then ((a / 2, kw, True), 1 / 2 ^ 600)
                                                else ((a, r, True), 1))\<rparr>"


section \<open>Float rounding\<close>

text \<open>
  Rounding to an integer is monotone and leaves integers alone; the exponent
  \<open>ulp_exponent x\<close> brackets \<open>x\<close> between two powers of two.
\<close>

lemma round_half_even_of_int: "round_half_even (of_int k) = k"
  by (simp add: round_half_even_def)

lemma round_half_even_bounds:
  "of_int (round_half_even y) \<le> y + 1 / 2" "y - 1 / 2 \<le> of_int (round_half_even y)"
  unfolding round_half_even_def by (auto; linarith)+

lemma round_half_even_mono:
  assumes "y \<le> z" shows "round_half_even y \<le> round_half_even z"
proof (cases "\<lfloor>y\<rfloor> = \<lfloor>z\<rfloor>")
  case True
  with assms show ?thesis unfolding round_half_even_def by auto
next
  case False
  with assms have "\<lfloor>y\<rfloor> + 1 \<le> \<lfloor>z\<rfloor>" using floor_mono [of y z] by linarith
  moreover have "round_half_even y \<le> \<lfloor>y\<rfloor> + 1" unfolding round_half_even_def by auto
  moreover have "\<lfloor>z\<rfloor> \<le> round_half_even z" unfolding round_half_even_def by auto
  ultimately show ?thesis by linarith
qed

lemma floor_log2_bounds:
  assumes "0 < x"
  shows "2 powi \<lfloor>log 2 x\<rfloor> \<le> x" "x < 2 powi (\<lfloor>log 2 x\<rfloor> + 1)"
proof -
  have "2 powr (of_int \<lfloor>log 2 x\<rfloor>) \<le> 2 powr (log 2 x)"
    by (simp)
  then show "2 powi \<lfloor>log 2 x\<rfloor> \<le> x" using assms by (simp add: powr_real_of_int')
  have "2 powr (log 2 x) < 2 powr (of_int (\<lfloor>log 2 x\<rfloor> + 1))"
    by (simp)
  then show "x < 2 powi (\<lfloor>log 2 x\<rfloor> + 1)" using assms
    by (simp add: powr_real_of_int' del: of_int_add)
qed

lemma floor_log2_eq:
  assumes "2 powi k \<le> x" "x < 2 powi (k + 1)"
  shows "\<lfloor>log 2 x\<rfloor> = k"
proof -
  have pos: "0 < x" using assms(1) by (smt (verit) zero_less_power_int)
  have "2 powr (of_int k) \<le> x" "x < 2 powr (of_int (k + 1))"
    using assms by (simp_all add: powr_real_of_int' del: of_int_add)
  then have "of_int k \<le> log 2 x" "log 2 x < of_int (k + 1)"
    using pos by (simp_all add: le_log_iff log_less_iff del: of_int_add)
  then show ?thesis by linarith
qed

lemma floor_log2_log:
  assumes "0 < x"
  shows "floor_log2 x = \<lfloor>log 2 x\<rfloor>"
proof (cases "1 \<le> x")
  case True
  define n where "n = \<lfloor>x\<rfloor>"
  have n: "0 < n" using True by (simp add: n_def)
  define k where "k = bitlen n - 1"
  have k0: "0 \<le> k" using n by (simp add: k_def bitlen_alt_def)
  from bitlen_bounds [OF n] have b: "2 ^ nat k \<le> n" "n < 2 ^ nat (k + 1)"
    using k0 by (simp_all add: k_def)
  have "(2::real) powi k = of_int (2 ^ nat k)" using k0 by (simp add: power_int_def)
  also have "\<dots> \<le> of_int n" using b(1) by (simp only: of_int_le_iff)
  also have "\<dots> \<le> x" by (simp add: n_def)
  finally have lo: "2 powi k \<le> x" .
  have "n + 1 \<le> 2 ^ nat (k + 1)" using b(2) by simp
  then have "(of_int (n + 1) :: real) \<le> of_int (2 ^ nat (k + 1))" by (simp only: of_int_le_iff)
  moreover have "x < of_int (n + 1)" by (simp add: n_def)
  moreover have "(2::real) powi (k + 1) = of_int (2 ^ nat (k + 1))"
    using k0 by (simp add: power_int_def)
  ultimately have hi: "x < 2 powi (k + 1)" by linarith
  have "\<lfloor>log 2 x\<rfloor> = k" by (rule floor_log2_eq [OF lo hi])
  then show ?thesis using True by (simp add: floor_log2_def k_def n_def)
next
  case False
  define y where "y = 1 / x"
  have y1: "1 < y" using False assms by (simp add: y_def)
  define m where "m = \<lceil>y\<rceil> - 1"
  have m: "0 < m" using y1 by (simp add: m_def)
  define j where "j = bitlen m"
  have j1: "1 \<le> j" using m by (simp add: j_def bitlen_alt_def)
  from bitlen_bounds [OF m] have b: "2 ^ nat (j - 1) \<le> m" "m < 2 ^ nat j"
    by (simp_all add: j_def)
  have my: "of_int m < y" "y \<le> of_int (m + 1)" by (simp_all add: m_def) linarith+
  have "(2::real) ^ nat (j - 1) = of_int (2 ^ nat (j - 1))" by simp
  also have "\<dots> \<le> of_int m" using b(1) by (simp only: of_int_le_iff)
  finally have ylo: "2 ^ nat (j - 1) < y" using my(1) by linarith
  have "m + 1 \<le> 2 ^ nat j" using b(2) by simp
  then have "(of_int (m + 1) :: real) \<le> of_int (2 ^ nat j)" by (simp only: of_int_le_iff)
  then have yhi: "y \<le> 2 ^ nat j" using my(2) by simp
  have xy: "x = 1 / y" using assms by (simp add: y_def)
  have p1: "(2::real) powi (- j) = 1 / 2 ^ nat j" using j1 by (simp add: power_int_def field_simps)
  have p2: "(2::real) powi (- j + 1) = 1 / 2 ^ nat (j - 1)"
    using j1 by (cases "j = 1") (simp_all add: power_int_def field_simps)
  have lo: "2 powi (- j) \<le> x"
    unfolding p1 xy using yhi y1 by (simp add: frac_le)
  have hi: "x < 2 powi (- j + 1)"
    unfolding p2 xy using ylo y1 by (simp add: frac_less2)
  have "\<lfloor>log 2 x\<rfloor> = - j" by (rule floor_log2_eq [OF lo hi])
  then show ?thesis using False by (simp add: floor_log2_def j_def m_def y_def)
qed

lemma ulp_exponent_log:
  "x \<noteq> 0 \<Longrightarrow> ulp_exponent x = max (\<lfloor>log 2 \<bar>x\<bar>\<rfloor> - 52) (- 1074)"
  by (simp add: ulp_exponent_def floor_log2_log)

lemma ulp_exponent_lower: "- 1074 \<le> ulp_exponent x"
  by (simp add: ulp_exponent_def)

lemma ulp_exponent_upper:
  assumes "x \<noteq> 0" shows "\<bar>x\<bar> < 2 powi (ulp_exponent x + 53)"
proof -
  have "\<bar>x\<bar> < 2 powi (\<lfloor>log 2 \<bar>x\<bar>\<rfloor> + 1)" using assms by (simp add: floor_log2_bounds)
  also have "\<dots> \<le> 2 powi (ulp_exponent x + 53)"
    using assms by (intro power_int_increasing) (simp_all add: ulp_exponent_log)
  finally show ?thesis .
qed

lemma ulp_exponent_normal:
  assumes "x \<noteq> 0" "- 1074 < ulp_exponent x"
  shows "2 powi (ulp_exponent x + 52) \<le> \<bar>x\<bar>"
proof -
  have "ulp_exponent x = \<lfloor>log 2 \<bar>x\<bar>\<rfloor> - 52" using assms by (simp add: ulp_exponent_log max_def split: if_splits)
  then have "(2::real) powi (ulp_exponent x + 52) = 2 powi \<lfloor>log 2 \<bar>x\<bar>\<rfloor>" by simp
  then show ?thesis using assms(1) by (simp add: floor_log2_bounds)
qed

lemma ulp_exponent_mono:
  assumes "0 < x" "x \<le> y" shows "ulp_exponent x \<le> ulp_exponent y"
proof -
  have "log 2 x \<le> log 2 y" using assms by simp
  then have "\<lfloor>log 2 x\<rfloor> \<le> \<lfloor>log 2 y\<rfloor>" by (rule floor_mono)
  then show ?thesis using assms by (simp add: ulp_exponent_log)
qed

lemma ulp_exponent_eq:
  assumes "2 powi (k + 52) \<le> \<bar>x\<bar>" "\<bar>x\<bar> < 2 powi (k + 53)" "- 1074 \<le> k"
  shows "ulp_exponent x = k"
proof -
  have "\<lfloor>log 2 \<bar>x\<bar>\<rfloor> = k + 52"
    using assms(1,2) by (intro floor_log2_eq) (simp_all add: add.commute add.left_commute)
  moreover have "x \<noteq> 0" using assms(1) by (smt (verit) zero_less_power_int)
  ultimately show ?thesis using assms(3) by (simp add: ulp_exponent_log)
qed

lemma ulp_exponent_subnormal:
  assumes "x \<noteq> 0" "\<bar>x\<bar> < 2 powi (- 1022)"
  shows "ulp_exponent x = - 1074"
proof -
  have "2 powi \<lfloor>log 2 \<bar>x\<bar>\<rfloor> \<le> \<bar>x\<bar>" using assms(1) by (simp add: floor_log2_bounds)
  then have "(2::real) powi \<lfloor>log 2 \<bar>x\<bar>\<rfloor> < 2 powi (- 1022)" using assms(2) by linarith
  then have "\<lfloor>log 2 \<bar>x\<bar>\<rfloor> < - 1022"
    using power_int_increasing [of "- 1022" "\<lfloor>log 2 \<bar>x\<bar>\<rfloor>" "2::real"] by (cases "\<lfloor>log 2 \<bar>x\<bar>\<rfloor> < - 1022") simp_all
  then have "\<lfloor>log 2 \<bar>x\<bar>\<rfloor> - 52 \<le> - 1074" by linarith
  then show ?thesis by (simp only: ulp_exponent_log [OF assms(1)] max_absorb2)
qed

lemma float_round_eq:
  assumes "2 powi (k + 52) \<le> \<bar>x\<bar>" "\<bar>x\<bar> < 2 powi (k + 53)" "- 1074 \<le> k"
  shows "float_round x = of_int (round_half_even (x / 2 powi k)) * 2 powi k"
proof -
  have "x \<noteq> 0" using assms(1) by (smt (verit) zero_less_power_int)
  then show ?thesis by (simp add: float_round_def ulp_exponent_eq [OF assms])
qed

lemma float_round_subnormal:
  assumes "\<bar>x\<bar> < 2 powi (- 1022)"
  shows "float_round x = of_int (round_half_even (x / 2 powi (- 1074))) * 2 powi (- 1074)"
proof (cases "x = 0")
  case True
  then show ?thesis by (simp add: float_round_def round_half_even_def)
next
  case False
  then show ?thesis by (simp add: float_round_def ulp_exponent_subnormal [OF False assms])
qed

lemma float_round_representable:
  assumes "\<bar>m\<bar> < 2 ^ 53" "- 1074 \<le> e"
  shows "float_round (of_int m * 2 powi e) = of_int m * 2 powi e"
proof (cases "m = 0")
  case True
  then show ?thesis by (simp add: float_round_def)
next
  case False
  let ?x = "of_int m * 2 powi e :: real"
  have x0: "?x \<noteq> 0" using False by simp
  have abs: "\<bar>?x\<bar> = of_int \<bar>m\<bar> * 2 powi e" by (simp add: abs_mult)
  have "of_int \<bar>m\<bar> < (2::real) ^ 53" using assms(1) by (metis of_int_less_iff of_int_numeral of_int_power)
  then have lt: "\<bar>?x\<bar> < 2 powi (e + 53)"
    unfolding abs by (simp add: power_int_add)
  have le: "ulp_exponent ?x \<le> e"
  proof (rule ccontr)
    assume "\<not> ulp_exponent ?x \<le> e"
    then have gt: "e + 1 \<le> ulp_exponent ?x" by simp
    with assms(2) have "- 1074 < ulp_exponent ?x" by simp
    from ulp_exponent_normal [OF x0 this] have "2 powi (ulp_exponent ?x + 52) \<le> \<bar>?x\<bar>" .
    moreover have "(2::real) powi (e + 53) \<le> 2 powi (ulp_exponent ?x + 52)"
      using gt by (intro power_int_increasing) simp_all
    ultimately show False using lt by linarith
  qed
  define d where "d = nat (e - ulp_exponent ?x)"
  have e_eq: "e = ulp_exponent ?x + int d" using le by (simp add: d_def)
  have "?x / 2 powi ulp_exponent ?x = of_int m * 2 powi (int d)"
    by (subst e_eq) (simp add: power_int_add)
  also have "\<dots> = of_int (m * 2 ^ d)" by simp
  finally have "round_half_even (?x / 2 powi ulp_exponent ?x) = m * 2 ^ d"
    by (simp only: round_half_even_of_int)
  then have "float_round ?x = of_int (m * 2 ^ d) * 2 powi ulp_exponent ?x"
    using x0 by (simp add: float_round_def)
  also have "\<dots> = of_int m * (2 powi (int d) * 2 powi ulp_exponent ?x)" by simp
  also have "2 powi (int d) * 2 powi ulp_exponent ?x = (2::real) powi e"
    by (subst e_eq) (simp add: power_int_add)
  finally show ?thesis .
qed

text \<open>
  \<open>float_round\<close> keeps the sign, is idempotent and, on non-negative numbers, monotone;
  it leaves every number with a mantissa of 53 bits alone.
\<close>

lemma round_half_even_nonneg: "0 \<le> y \<Longrightarrow> 0 \<le> round_half_even y"
  using round_half_even_mono [of 0 y] round_half_even_of_int [of 0] by simp

lemma float_round_nonneg: "0 \<le> x \<Longrightarrow> 0 \<le> float_round x"
  by (simp add: float_round_def round_half_even_nonneg)

lemma scaled_mantissa_bound:
  assumes "x \<noteq> 0"
  shows "\<bar>round_half_even (x / 2 powi ulp_exponent x)\<bar> \<le> 2 ^ 53"
proof -
  let ?e = "ulp_exponent x"
  have "\<bar>x\<bar> < 2 powi (?e + 53)" by (rule ulp_exponent_upper [OF assms])
  also have "\<dots> = 2 ^ 53 * 2 powi ?e" by (simp add: power_int_add)
  finally have "\<bar>x\<bar> / 2 powi ?e < 2 ^ 53" by (simp add: pos_divide_less_eq)
  moreover define K :: int where "K = 2 ^ 53"
  moreover have K: "(of_int K :: real) = 2 ^ 53" by (simp add: K_def)
  moreover have "\<bar>x / 2 powi ?e\<bar> = \<bar>x\<bar> / 2 powi ?e" by (simp add: abs_divide)
  ultimately have "\<bar>x / 2 powi ?e\<bar> < of_int K" by (simp only:)
  then have "x / 2 powi ?e \<le> of_int K" "of_int (- K) \<le> x / 2 powi ?e"
    by (simp_all only: of_int_minus)
  then have "round_half_even (x / 2 powi ?e) \<le> K" "- K \<le> round_half_even (x / 2 powi ?e)"
    using round_half_even_mono [of "x / 2 powi ?e" "of_int K"]
      round_half_even_mono [of "of_int (- K)" "x / 2 powi ?e"]
    by (simp_all only: round_half_even_of_int)
  then show ?thesis unfolding K_def by linarith
qed

lemma float_round_idem: "float_round (float_round x) = float_round x"
proof (cases "x = 0")
  case True
  then show ?thesis by (simp add: float_round_def)
next
  case False
  let ?e = "ulp_exponent x"
  let ?m = "round_half_even (x / 2 powi ?e)"
  have fr: "float_round x = of_int ?m * 2 powi ?e" using False by (simp add: float_round_def)
  have b: "\<bar>?m\<bar> \<le> 2 ^ 53" by (rule scaled_mantissa_bound [OF False])
  show ?thesis
  proof (cases "\<bar>?m\<bar> < 2 ^ 53")
    case True
    show ?thesis unfolding fr by (rule float_round_representable [OF True ulp_exponent_lower])
  next
    case False
    with b have m: "?m = 2 ^ 53 \<or> ?m = - (2 ^ 53)" by linarith
    have two: "(2::real) ^ 53 * 2 powi ?e = 2 ^ 52 * 2 powi (?e + 1)"
      by (simp add: power_int_add)
    have r1: "float_round (of_int (2 ^ 52) * 2 powi (?e + 1)) = of_int (2 ^ 52) * 2 powi (?e + 1)"
      using ulp_exponent_lower [of x] by (intro float_round_representable) simp_all
    have r2: "float_round (of_int (- (2 ^ 52)) * 2 powi (?e + 1)) = of_int (- (2 ^ 52)) * 2 powi (?e + 1)"
      using ulp_exponent_lower [of x] by (intro float_round_representable) simp_all
    from m show ?thesis
    proof
      assume "?m = 2 ^ 53"
      then have "float_round x = of_int (2 ^ 52) * 2 powi (?e + 1)" using fr two by simp
      then show ?thesis using r1 by simp
    next
      assume "?m = - (2 ^ 53)"
      then have "float_round x = of_int (- (2 ^ 52)) * 2 powi (?e + 1)" using fr two by simp
      then show ?thesis using r2 by simp
    qed
  qed
qed

lemma float_round_mono_pos:
  assumes "0 < x" "x \<le> y"
  shows "float_round x \<le> float_round y"
proof -
  let ?ex = "ulp_exponent x" and ?ey = "ulp_exponent y"
  have x0: "x \<noteq> 0" and y0: "y \<noteq> 0" and ypos: "0 < y" using assms by simp_all
  have frx: "float_round x = of_int (round_half_even (x / 2 powi ?ex)) * 2 powi ?ex"
    using x0 by (simp add: float_round_def)
  have fry: "float_round y = of_int (round_half_even (y / 2 powi ?ey)) * 2 powi ?ey"
    using y0 by (simp add: float_round_def)
  have le: "?ex \<le> ?ey" by (rule ulp_exponent_mono [OF assms])
  show ?thesis
  proof (cases "?ex = ?ey")
    case True
    have "x / 2 powi ?ey \<le> y / 2 powi ?ey" using assms(2) by (simp add: divide_right_mono)
    then have "round_half_even (x / 2 powi ?ey) \<le> round_half_even (y / 2 powi ?ey)"
      by (rule round_half_even_mono)
    then have "of_int (round_half_even (x / 2 powi ?ey)) * 2 powi ?ey \<le>
               (of_int (round_half_even (y / 2 powi ?ey)) * 2 powi ?ey :: real)"
      by (simp add: mult_right_mono)
    then show ?thesis using frx fry True by simp
  next
    case False
    with le have lt: "?ex + 1 \<le> ?ey" by simp
    have "round_half_even (x / 2 powi ?ex) \<le> 2 ^ 53"
      using scaled_mantissa_bound [OF x0] by linarith
    then have "(of_int (round_half_even (x / 2 powi ?ex)) :: real) \<le> 2 ^ 53"
      by (metis of_int_le_iff of_int_numeral of_int_power)
    then have "float_round x \<le> 2 ^ 53 * 2 powi ?ex"
      unfolding frx by (simp add: mult_right_mono)
    also have "\<dots> = 2 powi (?ex + 53)" by (simp add: power_int_add)
    also have "\<dots> \<le> 2 powi (?ey + 52)"
      using lt by (intro power_int_increasing) simp_all
    finally have up: "float_round x \<le> 2 powi (?ey + 52)" .
    have normal: "- 1074 < ?ey" using lt ulp_exponent_lower [of x] by linarith
    have "2 powi (?ey + 52) \<le> \<bar>y\<bar>" by (rule ulp_exponent_normal [OF y0 normal])
    then have "2 powi (?ey + 52) \<le> y" using ypos by simp
    then have "of_int (2 ^ 52) \<le> y / 2 powi ?ey"
      by (simp add: power_int_add pos_le_divide_eq)
    then have "round_half_even (of_int (2 ^ 52)) \<le> round_half_even (y / 2 powi ?ey)"
      by (rule round_half_even_mono)
    then have "2 ^ 52 \<le> round_half_even (y / 2 powi ?ey)"
      by (simp only: round_half_even_of_int)
    then have "(2::real) ^ 52 \<le> of_int (round_half_even (y / 2 powi ?ey))"
      by (metis of_int_le_iff of_int_numeral of_int_power)
    then have "2 ^ 52 * 2 powi ?ey \<le> float_round y"
      unfolding fry by (simp add: mult_right_mono)
    moreover have "(2::real) ^ 52 * 2 powi ?ey = 2 powi (?ey + 52)" by (simp add: power_int_add)
    ultimately show ?thesis using up by linarith
  qed
qed

lemma float_round_mono:
  assumes "0 \<le> x" "x \<le> y"
  shows "float_round x \<le> float_round y"
proof (cases "x = 0")
  case True
  then show ?thesis using assms float_round_nonneg [of y] by (simp add: float_round_def)
next
  case False
  with assms show ?thesis by (intro float_round_mono_pos) simp_all
qed

lemma float_round_power_int: "- 1074 \<le> k \<Longrightarrow> float_round (2 powi k) = 2 powi k"
  using float_round_representable [of 1 k] by simp

lemma float_round_one: "float_round 1 = 1"
  using float_round_power_int [of 0] by simp

lemma float_round_zero: "float_round 0 = 0"
  by (simp add: float_round_def)

lemma float_round_le_one: "0 \<le> x \<Longrightarrow> x \<le> 1 \<Longrightarrow> float_round x \<le> 1"
  using float_round_mono [of x 1] by (simp add: float_round_one)

lemma float_round_quarter: "float_round (1 / 4) = 1 / 4"
  using float_round_power_int [of "- 2"] by (simp add: power_int_minus)

lemma float_round_sixteenth: "float_round (1 / 16) = 1 / 16"
  using float_round_power_int [of "- 4"] by (simp add: power_int_minus)

lemma float_round_demo_error: "float_round (1 / 1048576) = 1 / 1048576"
  using float_round_power_int [of "- 20"] by (simp add: power_int_minus)

lemmas float_simps = float_add_def float_mul_def float_round_zero float_round_one
  float_round_quarter float_round_sixteenth float_round_demo_error

lemma tiny_product: "float_mul (1 / 2 ^ 600) (1 / 2 ^ 600) = 0"
  unfolding float_mul_def
  by (subst float_round_subnormal) (simp_all add: round_half_even_def power_int_minus)

lemma float_round_tiny: "float_round (1 / 2 ^ 600) = 1 / 2 ^ 600"
  using float_round_power_int [of "- 600"] by (simp add: power_int_minus)

text \<open>
  Adding a non-negative float to a non-negative float never gives less, and the sum is a
  float again.
\<close>

lemma float_add_grows:
  assumes "0 \<le> e" "0 \<le> x" "float_round x = x"
  shows "x \<le> float_add x e" "0 \<le> float_add x e" "float_round (float_add x e) = float_add x e"
proof -
  have "float_round x \<le> float_round (x + e)" using assms by (intro float_round_mono) simp_all
  then show "x \<le> float_add x e" using assms(3) by (simp add: float_add_def)
  then show "0 \<le> float_add x e" using assms(2) by linarith
  show "float_round (float_add x e) = float_add x e" by (simp add: float_add_def float_round_idem)
qed

lemma float_sum_grows:
  assumes "0 \<le> e" "0 \<le> x" "float_round x = x"
  shows "0 \<le> ((\<lambda>y. float_add y e) ^^ N) x \<and>
         float_round (((\<lambda>y. float_add y e) ^^ N) x) = ((\<lambda>y. float_add y e) ^^ N) x \<and>
         ((\<lambda>y. float_add y e) ^^ N) x \<le> ((\<lambda>y. float_add y e) ^^ Suc N) x"
proof (induction N)
  case 0
  show ?case using assms float_add_grows [OF assms] by simp
next
  case (Suc N)
  let ?y = "((\<lambda>y. float_add y e) ^^ Suc N) x"
  have y: "0 \<le> ?y" "float_round ?y = ?y"
    using Suc float_add_grows [OF assms(1), of "((\<lambda>y. float_add y e) ^^ N) x"] by simp_all
  from float_add_grows [OF assms(1) y] y show ?case by simp
qed

text \<open>As long as every multiple of the estimate is a float, the sum is the multiple.\<close>

lemma float_sum_exact:
  assumes "\<forall>j\<le>N. float_round (real j * e) = real j * e"
  shows "((\<lambda>y. float_add y e) ^^ N) 0 = real N * e"
  using assms
proof (induction N)
  case 0
  show ?case by simp
next
  case (Suc N)
  then have "((\<lambda>y. float_add y e) ^^ N) 0 = real N * e" by simp
  moreover have "float_round (real (Suc N) * e) = real (Suc N) * e" using Suc.prems by blast
  ultimately show ?case by (simp add: float_add_def algebra_simps)
qed

text \<open>
  The product of two numbers between 0 and 1 rounds to a number between 0 and 1, and a
  float multiplied by such a number does not grow.
\<close>

lemma float_mul_unit:
  assumes "0 \<le> a" "a \<le> 1" "0 \<le> b" "b \<le> 1"
  shows "0 \<le> float_mul a b" "float_mul a b \<le> 1"
proof -
  have "0 \<le> a * b" "a * b \<le> 1" using assms by (simp_all add: mult_le_one)
  then show "0 \<le> float_mul a b" "float_mul a b \<le> 1"
    by (simp_all add: float_mul_def float_round_nonneg float_round_le_one)
qed

lemma float_mul_shrinks:
  assumes "0 \<le> c" "float_round c = c" "0 \<le> m" "m \<le> 1"
  shows "0 \<le> float_mul c m" "float_mul c m \<le> c" "float_round (float_mul c m) = float_mul c m"
proof -
  have "0 \<le> c * m" using assms by simp
  then show "0 \<le> float_mul c m" by (simp add: float_mul_def float_round_nonneg)
  have "c * m \<le> c * 1" using assms by (intro mult_left_mono) simp_all
  then have "float_round (c * m) \<le> float_round c"
    using \<open>0 \<le> c * m\<close> by (intro float_round_mono) simp_all
  then show "float_mul c m \<le> c" using assms(2) by (simp add: float_mul_def)
  show "float_round (float_mul c m) = float_mul c m" by (simp add: float_mul_def float_round_idem)
qed

text \<open>
  Ten additions of the float nearest to one tenth, each rounded: the partial sums of
  Python's \<^verbatim>\<open>0.1 + 0.1 + ...\<close>, the last of which is \<^verbatim>\<open>0.9999999999999999\<close>.
\<close>

lemma tenth_sum:
  "((\<lambda>x. float_add x (3602879701896397 / 36028797018963968)) ^^ 10) 0 =
     9007199254740991 / 9007199254740992"
proof -
  have ten: "(10::nat) = Suc (Suc (Suc (Suc (Suc (Suc (Suc (Suc (Suc (Suc 0)))))))))"
    by simp
  have r1: "float_add (0) (3602879701896397 / 36028797018963968) = 3602879701896397 / 36028797018963968"
    unfolding float_add_def
    by (subst float_round_eq [where k = "- 56"]) (simp_all add: round_half_even_def)
  have r2: "float_add (3602879701896397 / 36028797018963968) (3602879701896397 / 36028797018963968) = 3602879701896397 / 18014398509481984"
    unfolding float_add_def
    by (subst float_round_eq [where k = "- 55"]) (simp_all add: round_half_even_def)
  have r3: "float_add (3602879701896397 / 18014398509481984) (3602879701896397 / 36028797018963968) = 1351079888211149 / 4503599627370496"
    unfolding float_add_def
    by (subst float_round_eq [where k = "- 54"]) (simp_all add: round_half_even_def)
  have r4: "float_add (1351079888211149 / 4503599627370496) (3602879701896397 / 36028797018963968) = 3602879701896397 / 9007199254740992"
    unfolding float_add_def
    by (subst float_round_eq [where k = "- 54"]) (simp_all add: round_half_even_def)
  have r5: "float_add (3602879701896397 / 9007199254740992) (3602879701896397 / 36028797018963968) = 1 / 2"
    unfolding float_add_def
    by (subst float_round_eq [where k = "- 53"]) (simp_all add: round_half_even_def)
  have r6: "float_add (1 / 2) (3602879701896397 / 36028797018963968) = 5404319552844595 / 9007199254740992"
    unfolding float_add_def
    by (subst float_round_eq [where k = "- 53"]) (simp_all add: round_half_even_def)
  have r7: "float_add (5404319552844595 / 9007199254740992) (3602879701896397 / 36028797018963968) = 3152519739159347 / 4503599627370496"
    unfolding float_add_def
    by (subst float_round_eq [where k = "- 53"]) (simp_all add: round_half_even_def)
  have r8: "float_add (3152519739159347 / 4503599627370496) (3602879701896397 / 36028797018963968) = 7205759403792793 / 9007199254740992"
    unfolding float_add_def
    by (subst float_round_eq [where k = "- 53"]) (simp_all add: round_half_even_def)
  have r9: "float_add (7205759403792793 / 9007199254740992) (3602879701896397 / 36028797018963968) = 2026619832316723 / 2251799813685248"
    unfolding float_add_def
    by (subst float_round_eq [where k = "- 53"]) (simp_all add: round_half_even_def)
  have r10: "float_add (2026619832316723 / 2251799813685248) (3602879701896397 / 36028797018963968) = 9007199254740991 / 9007199254740992"
    unfolding float_add_def
    by (subst float_round_eq [where k = "- 53"]) (simp_all add: round_half_even_def)
  have "((\<lambda>x. float_add x (3602879701896397 / 36028797018963968)) ^^ 10) 0 =
    float_add (float_add (float_add (float_add (float_add (float_add (float_add (float_add (float_add (float_add (0) (3602879701896397 / 36028797018963968)) (3602879701896397 / 36028797018963968)) (3602879701896397 / 36028797018963968)) (3602879701896397 / 36028797018963968)) (3602879701896397 / 36028797018963968)) (3602879701896397 / 36028797018963968)) (3602879701896397 / 36028797018963968)) (3602879701896397 / 36028797018963968)) (3602879701896397 / 36028797018963968)) (3602879701896397 / 36028797018963968)"
    by (simp only: ten funpow.simps o_def id_def)
  also have "\<dots> = 9007199254740991 / 9007199254740992"
    by (simp only: r1 r2 r3 r4 r5 r6 r7 r8 r9 r10)
  finally show ?thesis .
qed

lemma tenth_product:
  "float_mul 10 (3602879701896397 / 36028797018963968) = 1"
  unfolding float_mul_def
  by (subst float_round_eq [where k = "- 52"]) (simp_all add: round_half_even_def)

section \<open>Unfolding the library and the examples\<close>

lemmas lib_defs = canonicalize_to_def compress_pmps_def compress_pmps_sites_def lc_compress_def
  compress_def partialdot_def itruediv_norm_def in_place_def

lemmas demo_defs = toy_lib_def demo_propagator_def demo_config_def demo_store_def demo_tpmps_def
  demo_world_def base_init_def tmpbase.defs tpmps.defs compression_config.defs

lemmas step_defs = evolve_def sweep_def evolve_start_def evolve_finish_def evolve_body_def
  contract_def state_compression_def sites_compression_def sweep_turn_def
  normalize_state_internal_def

lemmas tenth_defs = tenth_propagator_def tenth_world_def

lemma init_demo: "init toy_lib demo_store 0 demo_propagator demo_config 0 None = Inr demo_world"
  by (simp add: init_def normalize_state_def lib_defs demo_defs)

lemma toy_fidelity:
  "\<forall>kw c. 0 < snd (lib_compress toy_lib kw c) \<and> snd (lib_compress toy_lib kw c) \<le> 1"
  by (simp add: toy_lib_def split: prod.splits)

lemma lossy_fidelity:
  "\<forall>kw c. 0 < snd (lib_compress lossy_lib kw c) \<and> snd (lib_compress lossy_lib kw c) \<le> 1"
  by (simp add: lossy_lib_def toy_lib_def split: prod.splits)

lemma init_lossy:
  "init lossy_lib demo_store 0 demo_propagator demo_config 0 None = Inr demo_world"
  by (simp add: init_def normalize_state_def lib_defs demo_defs lossy_lib_def)

section \<open>What the loop leaves alone\<close>

text \<open>
  One pass of the loop changes two attributes only, \<^verbatim>\<open>psi_t\<close> and
  \<^verbatim>\<open>pmps_compression_step\<close>; so does the whole sweep.
\<close>

lemma evolve_body_frame:
  "fst (fst (evolve_body lb (sw, ov, l) step)) =
     (fst sw)\<lparr>psi_t := psi_t (fst (fst (evolve_body lb (sw, ov, l) step))),
              pmps_compression_step := pmps_compression_step (fst (fst (evolve_body lb (sw, ov, l) step)))\<rparr>"
  by (cases sw; cases step)
     (simp add: evolve_body_def contract_def state_compression_def sites_compression_def
        lib_defs Let_def split: prod.splits)

text \<open>After a pass, \<^verbatim>\<open>last_start_at\<close> is the offset of that pass (line 83).\<close>

lemma evolve_body_last_start_at:
  "snd (snd (evolve_body lb st (start_at, mpo))) = start_at"
  by (cases st) (simp add: evolve_body_def split: prod.splits)

lemma foldl_frame:
  "fst (fst (foldl (evolve_body lb) st steps)) =
     (fst (fst st))\<lparr>psi_t := psi_t (fst (fst (foldl (evolve_body lb) st steps))),
              pmps_compression_step := pmps_compression_step (fst (fst (foldl (evolve_body lb) st steps)))\<rparr>"
proof (induction steps arbitrary: st)
  case Nil
  show ?case by simp
next
  case (Cons x xs)
  obtain sw ov l where st: "st = (sw, ov, l)" by (cases st)
  have "fst (fst (foldl (evolve_body lb) st (x # xs))) =
        fst (fst (foldl (evolve_body lb) (evolve_body lb st x) xs))" by simp
  also have "\<dots> = (fst (fst (evolve_body lb st x)))\<lparr>psi_t := psi_t (fst (fst (foldl (evolve_body lb) (evolve_body lb st x) xs))),
              pmps_compression_step := pmps_compression_step (fst (fst (foldl (evolve_body lb) (evolve_body lb st x) xs)))\<rparr>"
    by (rule Cons.IH)
  also have "\<dots> = (fst (fst st))\<lparr>psi_t := psi_t (fst (fst (foldl (evolve_body lb) (evolve_body lb st x) xs))),
              pmps_compression_step := pmps_compression_step (fst (fst (foldl (evolve_body lb) (evolve_body lb st x) xs)))\<rparr>"
    unfolding st by (subst evolve_body_frame) simp
  finally show ?case by simp
qed

lemma evolve_start_world: "fst (fst (evolve_start lb sw)) = fst sw"
  by (cases sw) (simp add: evolve_start_def Let_def)

lemma sweep_frame:
  "fst (fst (sweep lb sw steps)) =
     (fst sw)\<lparr>psi_t := psi_t (fst (fst (sweep lb sw steps))),
              pmps_compression_step := pmps_compression_step (fst (fst (sweep lb sw steps)))\<rparr>"
  unfolding sweep_def by (subst foldl_frame) (simp add: evolve_start_world)

lemma sweep_fields:
  "stepno (fst (fst (sweep lb sw steps))) = stepno (fst sw)"
  "trotter_error (fst (fst (sweep lb sw steps))) = trotter_error (fst sw)"
  "propagator (fst (fst (sweep lb sw steps))) = propagator (fst sw)"
  "cumulative_overlap (fst (fst (sweep lb sw steps))) = cumulative_overlap (fst sw)"
  "base_overlap (fst (fst (sweep lb sw steps))) = base_overlap (fst sw)"
  "system_index (fst (fst (sweep lb sw steps))) = system_index (fst sw)"
  "full_compression (fst (fst (sweep lb sw steps))) = full_compression (fst sw)"
  "final_compression (fst (fst (sweep lb sw steps))) = final_compression (fst sw)"
  "state_compression_kwargs (fst (fst (sweep lb sw steps))) = state_compression_kwargs (fst sw)"
  "axes (fst (fst (sweep lb sw steps))) = axes (fst sw)"
  "to_cform (fst (fst (sweep lb sw steps))) = to_cform (fst sw)"
  "compress_sites_step (fst (fst (sweep lb sw steps))) = compress_sites_step (fst sw)"
  "compress_sites_relerr (fst (fst (sweep lb sw steps))) = compress_sites_relerr (fst sw)"
  "compress_sites_rank (fst (fst (sweep lb sw steps))) = compress_sites_rank (fst sw)"
  "compress_sites_stable (fst (fst (sweep lb sw steps))) = compress_sites_stable (fst sw)"
  by (subst sweep_frame, simp)+

lemma sweep_snoc: "sweep lb sw (pre @ [x]) = evolve_body lb (sweep lb sw pre) x"
  by (simp add: sweep_def)

text \<open>
  Before a pass, \<^verbatim>\<open>last_start_at\<close> is the offset of the pair before, and the system index
  before the first pair (lines 65 and 83).
\<close>

lemma sweep_last_start_at:
  "snd (snd (sweep lb sw pre)) = (if pre = [] then system_index (fst sw) else fst (last pre))"
proof (cases pre rule: rev_cases)
  case Nil
  then show ?thesis by (cases sw) (simp add: sweep_def evolve_start_def Let_def)
next
  case (snoc xs x)
  then show ?thesis
    by (cases x) (simp add: sweep_snoc evolve_body_last_start_at)
qed

text \<open>One pass of the loop, spelled out on the loop's variables.\<close>

lemma evolve_body_pass:
  "psi_t (fst (fst (evolve_body lb ((s, w), ov, l) (start_at, mpo)))) = next_ref w"
  "fst (snd (evolve_body lb ((s, w), ov, l) (start_at, mpo))) =
     (if full_compression s \<and> sweep_turn (prop_L (propagator s)) start_at l
      then float_mul ov (snd (lib_compress lb (state_compression_kwargs s)
                                (lib_partialdot lb mpo (heap w (psi_t s)) start_at (axes s))))
      else ov)"
  "calls (snd (fst (evolve_body lb ((s, w), ov, l) (start_at, mpo)))) =
     calls w @ [PartialDot start_at (psi_t s) (next_ref w)] @
       (if full_compression s
        then (if sweep_turn (prop_L (propagator s)) start_at l then [Compress (next_ref w)] else [])
        else (if 1 < lib_len lb mpo then [LcCompress (next_ref w) start_at] else [])) @
       (if sweep_turn (prop_L (propagator s)) start_at l \<and>
           pmps_compression_step s + 1 - 1 = compress_sites_step s
        then [CompressPmpsSites (next_ref w)] else [])"
  "heap (snd (fst (evolve_body lb ((s, w), ov, l) (start_at, mpo)))) (next_ref w) =
     (if sweep_turn (prop_L (propagator s)) start_at l \<and>
         pmps_compression_step s + 1 - 1 = compress_sites_step s
      then lib_compress_pmps_sites lb (compress_sites_relerr s) (compress_sites_rank s)
             (compress_sites_stable s) (to_cform s)
      else (\<lambda>c. c))
       (if full_compression s
        then (if sweep_turn (prop_L (propagator s)) start_at l
              then fst (lib_compress lb (state_compression_kwargs s)
                          (lib_partialdot lb mpo (heap w (psi_t s)) start_at (axes s)))
              else lib_partialdot lb mpo (heap w (psi_t s)) start_at (axes s))
        else (if 1 < lib_len lb mpo
              then lib_lc_compress lb
                     (lib_partialdot lb mpo (heap w (psi_t s)) start_at (axes s)) start_at
              else lib_partialdot lb mpo (heap w (psi_t s)) start_at (axes s)))"
  "pmps_compression_step (fst (fst (evolve_body lb ((s, w), ov, l) (start_at, mpo)))) =
     (if sweep_turn (prop_L (propagator s)) start_at l
      then (if pmps_compression_step s + 1 - 1 = compress_sites_step s
            then 1 else pmps_compression_step s + 1)
      else pmps_compression_step s)"
  by (simp_all add: evolve_body_def contract_def state_compression_def sites_compression_def
        lib_defs Let_def split: prod.splits)

lemma evolve_sweep:
  "evolve lb sw =
     evolve_finish lb (fst (sweep lb sw (trotter_steps (propagator (fst sw)))),
                       fst (snd (sweep lb sw (trotter_steps (propagator (fst sw))))))"
  by (simp add: evolve_def split: prod.splits)

section \<open>What a time step does to the counters\<close>

lemma init_fields:
  assumes "init lb w psi_0 p cfg t kw0 = Inr sw"
  shows "stepno (fst sw) = 0" "trotter_error (fst sw) = 0" "propagator (fst sw) = p"
    "base_overlap (fst sw) = 1" "cumulative_overlap (fst sw) = 1" "last_overlap (fst sw) = 1"
    "pmps_compression_step (fst sw) = 1" "psi_t (fst sw) = psi_0"
  using assms
  by (auto simp: init_def normalize_state_def base_init_def tmpbase.defs tpmps.defs Let_def
      split: if_splits)

lemma evolve_finish_fields:
  "stepno (fst (evolve_finish lb (sw, ov))) = stepno (fst sw) + 1"
  "trotter_error (fst (evolve_finish lb (sw, ov))) =
     float_add (trotter_error (fst sw)) (step_trotter_error (propagator (fst sw)))"
  "propagator (fst (evolve_finish lb (sw, ov))) = propagator (fst sw)"
  "base_overlap (fst (evolve_finish lb (sw, ov))) = base_overlap (fst sw)"
  by (cases sw; simp add: evolve_finish_def normalize_state_internal_def Let_def split: prod.splits)+

lemma evolve_fields:
  "stepno (fst (evolve lb sw)) = stepno (fst sw) + 1"
  "trotter_error (fst (evolve lb sw)) =
     float_add (trotter_error (fst sw)) (step_trotter_error (propagator (fst sw)))"
  "propagator (fst (evolve lb sw)) = propagator (fst sw)"
  "base_overlap (fst (evolve lb sw)) = base_overlap (fst sw)"
  by (simp_all add: evolve_sweep evolve_finish_fields sweep_fields)

lemma evolve_funpow_fields:
  "propagator (fst ((evolve lb ^^ N) sw)) = propagator (fst sw)"
  "base_overlap (fst ((evolve lb ^^ N) sw)) = base_overlap (fst sw)"
  by (induction N) (simp_all add: evolve_fields)

lemma evolve_funpow_count:
  "stepno (fst ((evolve lb ^^ N) sw)) = stepno (fst sw) + int N"
  "trotter_error (fst ((evolve lb ^^ N) sw)) =
     ((\<lambda>x. float_add x (step_trotter_error (propagator (fst sw)))) ^^ N) (trotter_error (fst sw))"
  by (induction N) (simp_all add: evolve_fields evolve_funpow_fields)

section \<open>The overlap of one step\<close>

text \<open>
  If every compression reports an overlap greater than 0 and at most 1, the step's
  overlap stays between 0 and 1 through the sweep, and the cumulative overlap, a float
  between 0 and 1, is multiplied by such a number and rounded.
\<close>

lemma evolve_body_overlap:
  assumes fid: "\<forall>kw c. 0 < snd (lib_compress lb kw c) \<and> snd (lib_compress lb kw c) \<le> 1"
    and ov: "0 \<le> ov" "ov \<le> 1"
  shows "0 \<le> fst (snd (evolve_body lb (sw, ov, l) step)) \<and>
         fst (snd (evolve_body lb (sw, ov, l) step)) \<le> 1"
proof (cases sw; cases step)
  fix s w a m
  assume "sw = (s, w)" "step = (a, m)"
  moreover have "0 \<le> float_mul ov (snd (lib_compress lb kw c)) \<and>
                 float_mul ov (snd (lib_compress lb kw c)) \<le> 1" for kw c
    using float_mul_unit [OF ov, of "snd (lib_compress lb kw c)"] fid
    by (simp add: less_imp_le)
  ultimately show ?thesis
    using ov by (simp add: evolve_body_pass)
qed

lemma foldl_overlap:
  assumes fid: "\<forall>kw c. 0 < snd (lib_compress lb kw c) \<and> snd (lib_compress lb kw c) \<le> 1"
  shows "0 \<le> fst (snd st) \<Longrightarrow> fst (snd st) \<le> 1 \<Longrightarrow>
         0 \<le> fst (snd (foldl (evolve_body lb) st steps)) \<and>
         fst (snd (foldl (evolve_body lb) st steps)) \<le> 1"
proof (induction steps arbitrary: st)
  case Nil
  then show ?case by simp
next
  case (Cons x xs)
  obtain sw ov l where st: "st = (sw, ov, l)" by (cases st)
  from Cons.prems have "0 \<le> ov" "ov \<le> 1" by (simp_all add: st)
  then have "0 \<le> fst (snd (evolve_body lb st x)) \<and> fst (snd (evolve_body lb st x)) \<le> 1"
    unfolding st by (rule evolve_body_overlap [OF fid])
  then show ?case using Cons.IH [of "evolve_body lb st x"] by simp
qed

lemma sweep_overlap:
  assumes fid: "\<forall>kw c. 0 < snd (lib_compress lb kw c) \<and> snd (lib_compress lb kw c) \<le> 1"
    and base: "base_overlap (fst sw) = 1"
  shows "0 \<le> fst (snd (sweep lb sw steps)) \<and> fst (snd (sweep lb sw steps)) \<le> 1"
proof -
  have "fst (snd (evolve_start lb sw)) = 1"
    using base by (cases sw) (simp add: evolve_start_def Let_def)
  then show ?thesis
    unfolding sweep_def using foldl_overlap [OF fid, of "evolve_start lb sw" steps] by simp
qed

lemma evolve_finish_cumulative:
  assumes fid: "\<forall>kw c. 0 < snd (lib_compress lb kw c) \<and> snd (lib_compress lb kw c) \<le> 1"
    and ov: "0 \<le> ov" "ov \<le> 1"
  shows "\<exists>m. 0 \<le> m \<and> m \<le> 1 \<and>
           last_overlap (fst (evolve_finish lb (sw, ov))) = m \<and>
           cumulative_overlap (fst (evolve_finish lb (sw, ov))) =
             float_mul (cumulative_overlap (fst sw)) m"
proof (cases "final_compression (fst sw)")
  case True
  let ?f = "snd (lib_compress lb (state_compression_kwargs (fst sw)) (heap (snd sw) (psi_t (fst sw))))"
  have "0 \<le> float_mul ov ?f \<and> float_mul ov ?f \<le> 1"
    using float_mul_unit [OF ov, of ?f] fid by (simp add: less_imp_le)
  moreover have "cumulative_overlap (fst (evolve_finish lb (sw, ov))) =
                 float_mul (cumulative_overlap (fst sw)) (float_mul ov ?f)"
    "last_overlap (fst (evolve_finish lb (sw, ov))) = float_mul ov ?f"
    using True
    by (cases sw; simp add: evolve_finish_def normalize_state_internal_def compress_def Let_def)+
  ultimately show ?thesis by blast
next
  case False
  then have "cumulative_overlap (fst (evolve_finish lb (sw, ov))) =
             float_mul (cumulative_overlap (fst sw)) ov"
    "last_overlap (fst (evolve_finish lb (sw, ov))) = ov"
    by (cases sw; simp add: evolve_finish_def normalize_state_internal_def Let_def)+
  then show ?thesis using ov by blast
qed

lemma evolve_cumulative:
  assumes fid: "\<forall>kw c. 0 < snd (lib_compress lb kw c) \<and> snd (lib_compress lb kw c) \<le> 1"
    and base: "base_overlap (fst sw) = 1"
  shows "\<exists>m. 0 \<le> m \<and> m \<le> 1 \<and>
           last_overlap (fst (evolve lb sw)) = m \<and>
           cumulative_overlap (fst (evolve lb sw)) = float_mul (cumulative_overlap (fst sw)) m"
proof -
  let ?st = "sweep lb sw (trotter_steps (propagator (fst sw)))"
  have "0 \<le> fst (snd ?st) \<and> fst (snd ?st) \<le> 1" by (rule sweep_overlap [OF fid base])
  then obtain m where m: "0 \<le> m" "m \<le> 1"
    "last_overlap (fst (evolve_finish lb (fst ?st, fst (snd ?st)))) = m"
    "cumulative_overlap (fst (evolve_finish lb (fst ?st, fst (snd ?st)))) =
       float_mul (cumulative_overlap (fst (fst ?st))) m"
    using evolve_finish_cumulative [OF fid, of "fst (snd ?st)" "fst ?st"] by blast
  then show ?thesis by (auto simp: evolve_sweep sweep_fields)
qed

lemma evolve_funpow_cumulative:
  assumes fid: "\<forall>kw c. 0 < snd (lib_compress lb kw c) \<and> snd (lib_compress lb kw c) \<le> 1"
    and base: "base_overlap (fst sw) = 1"
    and cum: "0 \<le> cumulative_overlap (fst sw)" "cumulative_overlap (fst sw) \<le> 1"
      "float_round (cumulative_overlap (fst sw)) = cumulative_overlap (fst sw)"
  shows "0 \<le> cumulative_overlap (fst ((evolve lb ^^ N) sw)) \<and>
         cumulative_overlap (fst ((evolve lb ^^ N) sw)) \<le> 1 \<and>
         cumulative_overlap (fst ((evolve lb ^^ Suc N) sw)) \<le>
           cumulative_overlap (fst ((evolve lb ^^ N) sw)) \<and>
         0 \<le> last_overlap (fst ((evolve lb ^^ Suc N) sw)) \<and>
         last_overlap (fst ((evolve lb ^^ Suc N) sw)) \<le> 1 \<and>
         cumulative_overlap (fst ((evolve lb ^^ Suc N) sw)) =
           float_mul (cumulative_overlap (fst ((evolve lb ^^ N) sw)))
             (last_overlap (fst ((evolve lb ^^ Suc N) sw)))"
proof -
  have step: "0 \<le> cumulative_overlap (fst (evolve lb x)) \<and>
              cumulative_overlap (fst (evolve lb x)) \<le> cumulative_overlap (fst x) \<and>
              float_round (cumulative_overlap (fst (evolve lb x))) =
                cumulative_overlap (fst (evolve lb x)) \<and>
              0 \<le> last_overlap (fst (evolve lb x)) \<and> last_overlap (fst (evolve lb x)) \<le> 1 \<and>
              cumulative_overlap (fst (evolve lb x)) =
                float_mul (cumulative_overlap (fst x)) (last_overlap (fst (evolve lb x)))"
    if bx: "base_overlap (fst x) = 1" and cx: "0 \<le> cumulative_overlap (fst x)"
      and rx: "float_round (cumulative_overlap (fst x)) = cumulative_overlap (fst x)" for x
  proof -
    obtain m where m: "0 \<le> m" "m \<le> 1" "last_overlap (fst (evolve lb x)) = m"
      "cumulative_overlap (fst (evolve lb x)) = float_mul (cumulative_overlap (fst x)) m"
      using evolve_cumulative [OF fid bx] by blast
    show ?thesis using float_mul_shrinks [OF cx rx m(1,2)] m(1,2) by (simp add: m(3,4))
  qed
  have inv: "0 \<le> cumulative_overlap (fst ((evolve lb ^^ N) sw)) \<and>
             cumulative_overlap (fst ((evolve lb ^^ N) sw)) \<le> 1 \<and>
             float_round (cumulative_overlap (fst ((evolve lb ^^ N) sw))) =
               cumulative_overlap (fst ((evolve lb ^^ N) sw))"
  proof (induction N)
    case 0
    show ?case using cum by simp
  next
    case (Suc N)
    have "base_overlap (fst ((evolve lb ^^ N) sw)) = 1"
      by (simp add: evolve_funpow_fields base)
    from step [OF this] Suc show ?case by fastforce
  qed
  have "base_overlap (fst ((evolve lb ^^ N) sw)) = 1"
    by (simp add: evolve_funpow_fields base)
  from step [OF this] inv show ?thesis by simp
qed

section \<open>Construction\<close>

text \<open>
  C8. Construction raises the assertion error exactly when the propagator was built
  without ancilla sites or in adjoint mode. For a propagator with ancilla sites and not
  in adjoint mode construction returns an orchestrator, and the propagator it holds is
  the one that was passed, unchanged. The assertions read the two flags as booleans.
\<close>

theorem init_fails_iff:
  "(init lb w psi p cfg t pkw = Inl AssertionError \<longleftrightarrow> \<not> ancilla_sites p \<or> build_adj p) \<and>
   ((\<exists>sw. init lb w psi p cfg t pkw = Inr sw \<and> propagator (fst sw) = p) \<longleftrightarrow>
      ancilla_sites p \<and> \<not> build_adj p)"
  by (auto simp: init_def normalize_state_def base_init_def tmpbase.defs tpmps.defs Let_def)

text \<open>The example propagator is accepted; with either flag flipped it is refused.\<close>

theorem init_fails_iff_witness:
  "init toy_lib demo_store 0 (demo_propagator\<lparr>build_adj := True\<rparr>) demo_config 0 None
     = Inl AssertionError \<and>
   init toy_lib demo_store 0 (demo_propagator\<lparr>ancilla_sites := False\<rparr>) demo_config 0 None
     = Inl AssertionError \<and>
   (\<exists>sw. init toy_lib demo_store 0 demo_propagator demo_config 0 None = Inr sw \<and>
      propagator (fst sw) = demo_propagator)"
  using init_fails_iff [of toy_lib demo_store 0 "demo_propagator\<lparr>build_adj := True\<rparr>"
        demo_config 0 None]
    init_fails_iff [of toy_lib demo_store 0 "demo_propagator\<lparr>ancilla_sites := False\<rparr>"
        demo_config 0 None]
    init_fails_iff [of toy_lib demo_store 0 demo_propagator demo_config 0 None]
  by (simp add: demo_propagator_def)

section \<open>Normalization\<close>

text \<open>
  C9. The normalization that callers use and the one that the time step uses are the
  same function of the world: each leaves the attributes alone and replaces the chain
  at \<^verbatim>\<open>self.psi_t\<close> by that chain divided by its norm.
\<close>

theorem normalize_state_internal_eq:
  "normalize_state_internal lb sw = normalize_state lb sw \<and>
   fst (normalize_state lb sw) = fst sw \<and>
   heap (snd (normalize_state lb sw)) (psi_t (fst sw)) =
     lib_itruediv lb (heap (snd sw) (psi_t (fst sw))) (lib_norm lb (heap (snd sw) (psi_t (fst sw))))"
  by (simp add: normalize_state_internal_def normalize_state_def itruediv_norm_def in_place_def)

text \<open>On a chain of norm 2 at address 1 both give the chain of norm 1.\<close>

theorem normalize_state_internal_eq_witness:
  "normalize_state_internal toy_lib (demo_tpmps\<lparr>psi_t := 1\<rparr>, demo_store) =
     normalize_state toy_lib (demo_tpmps\<lparr>psi_t := 1\<rparr>, demo_store) \<and>
   heap (snd (normalize_state toy_lib (demo_tpmps\<lparr>psi_t := 1\<rparr>, demo_store))) 1 = (1, 1, False)"
  using normalize_state_internal_eq [of toy_lib "(demo_tpmps\<lparr>psi_t := 1\<rparr>, demo_store)"]
  by (simp add: toy_lib_def demo_store_def)

section \<open>The compression policy of one pass of the loop\<close>

text \<open>
  C1, as the code has it. Take any pair \<open>(start_at, mpo)\<close> of the propagator's list,
  with the pairs \<open>pre\<close> before it. \<open>before\<close> and \<open>after\<close> are the loop's variables of
  \<open>evolve\<close> before and after the pass for that pair. The offset that the pass compares
  against is the offset of the pair before, and the system index for the first pair;
  it is what \<^verbatim>\<open>last_start_at\<close> holds before the pass, and after the pass
  \<^verbatim>\<open>last_start_at\<close> holds the offset of the pass. The pass contracts the operator into
  a new array, and then at most one compression of the state runs, chosen by the
  attribute \<^verbatim>\<open>full_compression\<close>. With \<^verbatim>\<open>full_compression\<close> set, the whole chain
  is compressed with the state's compression parameters, and the step's overlap is
  multiplied (as floats) by the overlap that compression returns, exactly when the
  offset is 0 or L - 2 and differs from the offset of the pair before; no local
  compression runs at any offset. With \<^verbatim>\<open>full_compression\<close> not set, the local
  compression runs at the offset exactly when the operator spans more than one site,
  the chain-wide compression never runs and the step's overlap is not changed. The log
  of the pass and the chain it leaves say so; what the counter of sweep turns adds to
  both is the subject of C2.
\<close>

theorem state_compression_policy:
  assumes "trotter_steps (propagator (fst sw)) = pre @ (start_at, mpo) # post"
  shows
    "let before = sweep lb sw pre;
         after = sweep lb sw (pre @ [(start_at, mpo)]);
         previous = (if pre = [] then system_index (fst sw) else fst (last pre));
         turn = sweep_turn (prop_L (propagator (fst sw))) start_at previous;
         r = next_ref (snd (fst before));
         contracted = lib_partialdot lb mpo (heap (snd (fst before)) (psi_t (fst (fst before))))
                        start_at (axes (fst sw))
     in evolve lb sw =
          evolve_finish lb (fst (sweep lb sw (trotter_steps (propagator (fst sw)))),
                            fst (snd (sweep lb sw (trotter_steps (propagator (fst sw)))))) \<and>
        snd (snd before) = previous \<and>
        snd (snd after) = start_at \<and>
        psi_t (fst (fst after)) = r \<and>
        fst (snd after) =
          (if full_compression (fst sw) \<and> turn
           then float_mul (fst (snd before))
                  (snd (lib_compress lb (state_compression_kwargs (fst sw)) contracted))
           else fst (snd before)) \<and>
        calls (snd (fst after)) =
          calls (snd (fst before)) @ [PartialDot start_at (psi_t (fst (fst before))) r] @
            (if full_compression (fst sw)
             then (if turn then [Compress r] else [])
             else (if 1 < lib_len lb mpo then [LcCompress r start_at] else [])) @
            (if turn \<and> pmps_compression_step (fst (fst before)) + 1 - 1 =
                         compress_sites_step (fst sw)
             then [CompressPmpsSites r] else []) \<and>
        heap (snd (fst after)) r =
          (if turn \<and> pmps_compression_step (fst (fst before)) + 1 - 1 =
                       compress_sites_step (fst sw)
           then lib_compress_pmps_sites lb (compress_sites_relerr (fst sw))
                  (compress_sites_rank (fst sw)) (compress_sites_stable (fst sw))
                  (to_cform (fst sw))
           else (\<lambda>c. c))
            (if full_compression (fst sw)
             then (if turn
                   then fst (lib_compress lb (state_compression_kwargs (fst sw)) contracted)
                   else contracted)
             else (if 1 < lib_len lb mpo then lib_lc_compress lb contracted start_at
                   else contracted))"
proof -
  obtain s w ov l where b: "sweep lb sw pre = ((s, w), ov, l)"
    by (metis prod.collapse)
  have l: "l = (if pre = [] then system_index (fst sw) else fst (last pre))"
    using sweep_last_start_at [of lb sw pre] by (simp add: b)
  have f: "propagator s = propagator (fst sw)" "full_compression s = full_compression (fst sw)"
    "state_compression_kwargs s = state_compression_kwargs (fst sw)" "axes s = axes (fst sw)"
    "to_cform s = to_cform (fst sw)" "compress_sites_step s = compress_sites_step (fst sw)"
    "compress_sites_relerr s = compress_sites_relerr (fst sw)"
    "compress_sites_rank s = compress_sites_rank (fst sw)"
    "compress_sites_stable s = compress_sites_stable (fst sw)"
    using sweep_fields [of lb sw pre] by (simp_all add: b)
  show ?thesis
    unfolding Let_def sweep_snoc b
    by (simp only: evolve_body_pass evolve_body_last_start_at fst_conv snd_conv f l [symmetric]
          evolve_sweep simp_thms)
qed

text \<open>
  In the example sweep over the offsets 1, 0, 1, 2, 3, 3, 2, 1: at offset 0 after offset 1
  the chain is compressed and the overlap one quarter is recorded; at the second
  offset 3, which repeats the offset before, only the contraction runs.
\<close>

theorem state_compression_policy_witness:
  "trotter_steps (propagator (fst demo_world)) =
     [(1, 2), (0, 2), (1, 2), (2, 2), (3, 2)] @ (3, 2) # [(2, 2), (1, 2)] \<and>
   calls (snd (fst (sweep toy_lib demo_world ([(1, 2)] @ [(0, 2)])))) =
     [CanonicalizeTo 0, NormDiv 0, CanonicalizeTo 0, PartialDot 1 0 2, PartialDot 0 2 3,
      Compress 3] \<and>
   fst (snd (sweep toy_lib demo_world ([(1, 2)] @ [(0, 2)]))) = 1 / 4 \<and>
   calls (snd (fst (sweep toy_lib demo_world
                      ([(1, 2), (0, 2), (1, 2), (2, 2), (3, 2)] @ [(3, 2)])))) =
     calls (snd (fst (sweep toy_lib demo_world [(1, 2), (0, 2), (1, 2), (2, 2), (3, 2)]))) @
       [PartialDot 3 6 7]"
proof -
  have steps: "trotter_steps (propagator (fst demo_world)) =
      [(1, 2), (0, 2), (1, 2), (2, 2), (3, 2)] @ (3, 2) # [(2, 2), (1, 2)]"
    "trotter_steps (propagator (fst demo_world)) =
      [(1, 2)] @ (0, 2) # [(1, 2), (2, 2), (3, 2), (3, 2), (2, 2), (1, 2)]"
    by (simp_all add: demo_defs)
  have world: "full_compression (fst demo_world)" "prop_L (propagator (fst demo_world)) = 5"
    "compress_sites_step (fst demo_world) = 2" "state_compression_kwargs (fst demo_world) = 1"
    by (simp_all add: demo_defs)
  have before1:
    "calls (snd (fst (sweep toy_lib demo_world [(1, 2)]))) =
       [CanonicalizeTo 0, NormDiv 0, CanonicalizeTo 0, PartialDot 1 0 2]"
    "psi_t (fst (fst (sweep toy_lib demo_world [(1, 2)]))) = 2"
    "next_ref (snd (fst (sweep toy_lib demo_world [(1, 2)]))) = 3"
    "pmps_compression_step (fst (fst (sweep toy_lib demo_world [(1, 2)]))) = 1"
    "fst (snd (sweep toy_lib demo_world [(1, 2)])) = 1"
    "heap (snd (fst (sweep toy_lib demo_world [(1, 2)]))) 2 = (2, 2, False)"
    by (simp_all add: step_defs lib_defs demo_defs Let_def)
  have before5:
    "psi_t (fst (fst (sweep toy_lib demo_world [(1, 2), (0, 2), (1, 2), (2, 2), (3, 2)]))) = 6"
    "next_ref (snd (fst (sweep toy_lib demo_world [(1, 2), (0, 2), (1, 2), (2, 2), (3, 2)]))) = 7"
    by (simp_all add: step_defs lib_defs demo_defs float_simps Let_def)
  have toy: "lib_len toy_lib 2 = 2"
    "snd (lib_compress toy_lib (Suc 0) (lib_partialdot toy_lib 2 (2, 2, False) 0
            (axes (fst demo_world)))) = 1 / 4"
    by (simp_all add: toy_lib_def)
  show ?thesis
    using state_compression_policy [where lb = toy_lib, OF steps(1)]
      state_compression_policy [where lb = toy_lib, OF steps(2)]
    by (simp add: Let_def steps(1) world before1 before5 toy sweep_turn_def float_simps)
qed

text \<open>
  C1 as stated fails in both directions. With \<^verbatim>\<open>full_compression\<close> not set, offset 0
  after offset 1 is a chain end that differs from the offset before, yet the chain is
  not compressed: the local compression runs and the overlap stays 1. With
  \<^verbatim>\<open>full_compression\<close> set, offset 1 after offset 2 is no chain end and the operator
  spans two sites, yet no local compression runs.
\<close>

theorem state_compression_policy_counterexample:
  "sweep_turn (prop_L (propagator (fst demo_world))) 0 1 \<and>
   calls (snd (fst (state_compression toy_lib 0 2 1
      (contract toy_lib 0 2 (demo_tpmps\<lparr>full_compression := False\<rparr>, snd demo_world), 1)))) =
     [CanonicalizeTo 0, NormDiv 0, PartialDot 0 0 2, LcCompress 2 0] \<and>
   snd (state_compression toy_lib 0 2 1
      (contract toy_lib 0 2 (demo_tpmps\<lparr>full_compression := False\<rparr>, snd demo_world), 1)) = 1 \<and>
   \<not> sweep_turn (prop_L (propagator (fst demo_world))) 1 2 \<and>
   1 < lib_len toy_lib 2 \<and>
   full_compression (fst demo_world) \<and>
   calls (snd (fst (state_compression toy_lib 1 2 2 (contract toy_lib 1 2 demo_world, 1)))) =
     [CanonicalizeTo 0, NormDiv 0, PartialDot 1 0 2]"
  by (simp add: state_compression_def contract_def lib_defs demo_defs sweep_turn_def)

section \<open>The counter of sweep turns\<close>

text \<open>
  C2, as the code has it. Take any pair \<open>(start_at, mpo)\<close> of the propagator's list,
  with the pairs \<open>pre\<close> before it, and the loop's variables of \<open>evolve\<close> before and
  after the pass for that pair. When the offset is 0 or L - 2 and differs from the
  offset of the pair before (the system index for the first pair),
  \<^verbatim>\<open>pmps_compression_step\<close> is incremented by one; when the incremented counter minus
  one equals \<^verbatim>\<open>compress_sites_step\<close>, the ancilla sites of the whole chain are
  compressed with the configured parameters, after the compression of the state, and
  the counter is set to 1. At any other pair the counter stays as it is and the
  compression of the ancilla sites does not run. Construction leaves the counter at 1.
\<close>

theorem sites_compression_cadence:
  assumes "trotter_steps (propagator (fst sw)) = pre @ (start_at, mpo) # post"
  shows
    "let before = sweep lb sw pre;
         after = sweep lb sw (pre @ [(start_at, mpo)]);
         previous = (if pre = [] then system_index (fst sw) else fst (last pre));
         turn = sweep_turn (prop_L (propagator (fst sw))) start_at previous;
         due = (pmps_compression_step (fst (fst before)) + 1 - 1 = compress_sites_step (fst sw));
         r = next_ref (snd (fst before));
         contracted = lib_partialdot lb mpo (heap (snd (fst before)) (psi_t (fst (fst before))))
                        start_at (axes (fst sw));
         compressed =
           (if full_compression (fst sw)
            then (if turn
                  then fst (lib_compress lb (state_compression_kwargs (fst sw)) contracted)
                  else contracted)
            else (if 1 < lib_len lb mpo then lib_lc_compress lb contracted start_at
                  else contracted))
     in evolve lb sw =
          evolve_finish lb (fst (sweep lb sw (trotter_steps (propagator (fst sw)))),
                            fst (snd (sweep lb sw (trotter_steps (propagator (fst sw)))))) \<and>
        snd (snd before) = previous \<and>
        snd (snd after) = start_at \<and>
        pmps_compression_step (fst (fst after)) =
          (if turn then (if due then 1 else pmps_compression_step (fst (fst before)) + 1)
           else pmps_compression_step (fst (fst before))) \<and>
        calls (snd (fst after)) =
          calls (snd (fst before)) @ [PartialDot start_at (psi_t (fst (fst before))) r] @
            (if full_compression (fst sw)
             then (if turn then [Compress r] else [])
             else (if 1 < lib_len lb mpo then [LcCompress r start_at] else [])) @
            (if turn \<and> due then [CompressPmpsSites r] else []) \<and>
        psi_t (fst (fst after)) = r \<and>
        heap (snd (fst after)) r =
          (if turn \<and> due
           then lib_compress_pmps_sites lb (compress_sites_relerr (fst sw))
                  (compress_sites_rank (fst sw)) (compress_sites_stable (fst sw))
                  (to_cform (fst sw)) compressed
           else compressed) \<and>
        (init lb w psi p cfg t pkw = Inr swi \<longrightarrow> pmps_compression_step (fst swi) = 1)"
proof -
  obtain s ws ov l where b: "sweep lb sw pre = ((s, ws), ov, l)"
    by (metis prod.collapse)
  have l: "l = (if pre = [] then system_index (fst sw) else fst (last pre))"
    using sweep_last_start_at [of lb sw pre] by (simp add: b)
  have f: "propagator s = propagator (fst sw)" "full_compression s = full_compression (fst sw)"
    "state_compression_kwargs s = state_compression_kwargs (fst sw)" "axes s = axes (fst sw)"
    "to_cform s = to_cform (fst sw)" "compress_sites_step s = compress_sites_step (fst sw)"
    "compress_sites_relerr s = compress_sites_relerr (fst sw)"
    "compress_sites_rank s = compress_sites_rank (fst sw)"
    "compress_sites_stable s = compress_sites_stable (fst sw)"
    using sweep_fields [of lb sw pre] by (simp_all add: b)
  have i: "init lb w psi p cfg t pkw = Inr swi \<longrightarrow> pmps_compression_step (fst swi) = 1"
    by (simp add: init_fields)
  show ?thesis
    unfolding Let_def sweep_snoc b
    using i
    by (simp only: evolve_body_pass evolve_body_last_start_at fst_conv snd_conv f l [symmetric]
          evolve_sweep simp_thms if_distrib [of "\<lambda>g. g _"] split: if_splits)
qed

text \<open>
  In the example sweep, with the period 2: at offset 0 after offset 1 the counter goes
  from 1 to 2 and the ancilla sites are not compressed; at offset 3 after offset 2 the
  counter has reached the period, the ancilla sites are compressed and the counter is 1
  again.
\<close>

theorem sites_compression_cadence_witness:
  "trotter_steps (propagator (fst demo_world)) =
     [(1, 2), (0, 2), (1, 2), (2, 2)] @ (3, 2) # [(3, 2), (2, 2), (1, 2)] \<and>
   init toy_lib demo_store 0 demo_propagator demo_config 0 None = Inr demo_world \<and>
   pmps_compression_step (fst demo_world) = 1 \<and>
   pmps_compression_step (fst (fst (sweep toy_lib demo_world ([(1, 2)] @ [(0, 2)])))) = 2 \<and>
   calls (snd (fst (sweep toy_lib demo_world ([(1, 2)] @ [(0, 2)])))) =
     calls (snd (fst (sweep toy_lib demo_world [(1, 2)]))) @ [PartialDot 0 2 3, Compress 3] \<and>
   pmps_compression_step
     (fst (fst (sweep toy_lib demo_world ([(1, 2), (0, 2), (1, 2), (2, 2)] @ [(3, 2)])))) = 1 \<and>
   calls (snd (fst (sweep toy_lib demo_world ([(1, 2), (0, 2), (1, 2), (2, 2)] @ [(3, 2)])))) =
     calls (snd (fst (sweep toy_lib demo_world [(1, 2), (0, 2), (1, 2), (2, 2)]))) @
       [PartialDot 3 5 6, Compress 6, CompressPmpsSites 6]"
proof -
  have steps: "trotter_steps (propagator (fst demo_world)) =
      [(1, 2), (0, 2), (1, 2), (2, 2)] @ (3, 2) # [(3, 2), (2, 2), (1, 2)]"
    "trotter_steps (propagator (fst demo_world)) =
      [(1, 2)] @ (0, 2) # [(1, 2), (2, 2), (3, 2), (3, 2), (2, 2), (1, 2)]"
    by (simp_all add: demo_defs)
  have world: "full_compression (fst demo_world)" "prop_L (propagator (fst demo_world)) = 5"
    "compress_sites_step (fst demo_world) = 2"
    by (simp_all add: demo_defs)
  have before1:
    "psi_t (fst (fst (sweep toy_lib demo_world [(1, 2)]))) = 2"
    "next_ref (snd (fst (sweep toy_lib demo_world [(1, 2)]))) = 3"
    "pmps_compression_step (fst (fst (sweep toy_lib demo_world [(1, 2)]))) = 1"
    by (simp_all add: step_defs lib_defs demo_defs Let_def)
  have before4:
    "psi_t (fst (fst (sweep toy_lib demo_world [(1, 2), (0, 2), (1, 2), (2, 2)]))) = 5"
    "next_ref (snd (fst (sweep toy_lib demo_world [(1, 2), (0, 2), (1, 2), (2, 2)]))) = 6"
    "pmps_compression_step
       (fst (fst (sweep toy_lib demo_world [(1, 2), (0, 2), (1, 2), (2, 2)]))) = 2"
    by (simp_all add: step_defs lib_defs demo_defs float_simps Let_def)
  show ?thesis
    using sites_compression_cadence [where lb = toy_lib and w = demo_store and psi = 0
        and p = demo_propagator and cfg = demo_config and t = 0 and pkw = None
        and swi = demo_world, OF steps(1)]
      sites_compression_cadence [where lb = toy_lib and w = demo_store and psi = 0
        and p = demo_propagator and cfg = demo_config and t = 0 and pkw = None
        and swi = demo_world, OF steps(2)]
      init_demo
    by (simp add: Let_def steps(1) world before1 before4 sweep_turn_def)
qed

text \<open>
  C2 as stated says that the counter is reset to zero. At a sweep turn where the
  compression of the ancilla sites runs, the counter is not zero afterwards.
\<close>

theorem sites_compression_cadence_counterexample:
  "sweep_turn (prop_L (propagator demo_tpmps)) 0 1 \<and>
   pmps_compression_step (demo_tpmps\<lparr>pmps_compression_step := 2\<rparr>) + 1 - 1 =
     compress_sites_step demo_tpmps \<and>
   calls (snd (sites_compression toy_lib 0 1
                 (demo_tpmps\<lparr>pmps_compression_step := 2\<rparr>, snd demo_world))) =
     [CanonicalizeTo 0, NormDiv 0, CompressPmpsSites 0] \<and>
   pmps_compression_step
     (fst (sites_compression toy_lib 0 1
             (demo_tpmps\<lparr>pmps_compression_step := 2\<rparr>, snd demo_world))) \<noteq> 0"
  by (simp add: sites_compression_def lib_defs demo_defs sweep_turn_def Let_def)

section \<open>Counting steps and Trotter error\<close>

text \<open>
  C6, as the code has it. After N time steps the step counter has grown by N, and the
  accumulated Trotter error is what N float additions of the propagator's estimate for
  one step, which a time step does not change, make of the error before. With a
  non-negative estimate, and an accumulated error that is a non-negative float, the
  accumulated error does not decrease from one step to the next. Counted from
  construction, the step counter is N and the accumulated error is the sum of N float
  additions of the estimate to 0; that sum is N times the estimate whenever every
  multiple of the estimate up to the N-th is a float, and the counterexample below shows
  that it need not be otherwise.
\<close>

theorem evolve_counts_steps:
  "stepno (fst ((evolve lb ^^ N) sw)) = stepno (fst sw) + int N \<and>
   trotter_error (fst ((evolve lb ^^ N) sw)) =
     ((\<lambda>x. float_add x (step_trotter_error (propagator (fst sw)))) ^^ N)
       (trotter_error (fst sw)) \<and>
   (0 \<le> step_trotter_error (propagator (fst sw)) \<and> 0 \<le> trotter_error (fst sw) \<and>
    float_round (trotter_error (fst sw)) = trotter_error (fst sw) \<longrightarrow>
      trotter_error (fst ((evolve lb ^^ N) sw)) \<le> trotter_error (fst ((evolve lb ^^ Suc N) sw))) \<and>
   (init lb w psi p cfg t pkw = Inr sw \<longrightarrow>
      stepno (fst ((evolve lb ^^ N) sw)) = int N \<and>
      trotter_error (fst ((evolve lb ^^ N) sw)) =
        ((\<lambda>x. float_add x (step_trotter_error p)) ^^ N) 0 \<and>
      (0 \<le> step_trotter_error p \<longrightarrow>
         trotter_error (fst ((evolve lb ^^ N) sw)) \<le>
           trotter_error (fst ((evolve lb ^^ Suc N) sw))) \<and>
      ((\<forall>j\<le>N. float_round (real j * step_trotter_error p) = real j * step_trotter_error p) \<longrightarrow>
         trotter_error (fst ((evolve lb ^^ N) sw)) = real N * step_trotter_error p))"
proof -
  let ?e = "step_trotter_error (propagator (fst sw))"
  have mono: "trotter_error (fst ((evolve lb ^^ N) sw)) \<le> trotter_error (fst ((evolve lb ^^ Suc N) sw))"
    if "0 \<le> ?e" "0 \<le> trotter_error (fst sw)" "float_round (trotter_error (fst sw)) = trotter_error (fst sw)"
    using float_sum_grows [OF that, of N] by (simp only: evolve_funpow_count)
  have init: "stepno (fst sw) = 0 \<and> trotter_error (fst sw) = 0 \<and> propagator (fst sw) = p"
    if "init lb w psi p cfg t pkw = Inr sw"
    using init_fields [OF that] by simp
  show ?thesis
    using mono init float_sum_exact [of N "step_trotter_error p"]
    by (auto simp: evolve_funpow_count float_round_zero simp del: funpow.simps)
qed

text \<open>
  Three steps of the example, whose estimate is a power of two: step counter 3,
  accumulated error three times the estimate.
\<close>

theorem evolve_counts_steps_witness:
  "0 \<le> step_trotter_error demo_propagator \<and>
   step_trotter_error (propagator (fst demo_world)) = step_trotter_error demo_propagator \<and>
   0 \<le> trotter_error (fst demo_world) \<and>
   float_round (trotter_error (fst demo_world)) = trotter_error (fst demo_world) \<and>
   init toy_lib demo_store 0 demo_propagator demo_config 0 None = Inr demo_world \<and>
   float_round (1 * step_trotter_error demo_propagator) =
     1 * step_trotter_error demo_propagator \<and>
   float_round (2 * step_trotter_error demo_propagator) =
     2 * step_trotter_error demo_propagator \<and>
   float_round (3 * step_trotter_error demo_propagator) =
     3 * step_trotter_error demo_propagator \<and>
   stepno (fst ((evolve toy_lib ^^ 3) demo_world)) = 3 \<and>
   trotter_error (fst ((evolve toy_lib ^^ 3) demo_world)) = 3 / 1048576 \<and>
   trotter_error (fst ((evolve toy_lib ^^ 3) demo_world)) \<le>
     trotter_error (fst ((evolve toy_lib ^^ Suc 3) demo_world))"
proof -
  have e: "step_trotter_error demo_propagator = 1 / 1048576"
    by (simp add: demo_defs)
  have exact: "float_round (real j * step_trotter_error demo_propagator) =
               real j * step_trotter_error demo_propagator" if "j \<le> 3" for j
  proof -
    have eq: "real j * step_trotter_error demo_propagator = of_int (int j) * 2 powi (- 20)"
      by (simp add: e power_int_minus)
    have "\<bar>int j\<bar> < 2 ^ 53" using that by simp
    then have "float_round (of_int (int j) * 2 powi (- 20)) = of_int (int j) * 2 powi (- 20)"
      by (rule float_round_representable) simp
    then show ?thesis by (simp only: eq)
  qed
  then have all: "\<forall>j\<le>3. float_round (real j * step_trotter_error demo_propagator) =
                        real j * step_trotter_error demo_propagator"
    by blast
  have nonneg: "0 \<le> step_trotter_error demo_propagator" by (simp add: e)
  have "stepno (fst ((evolve toy_lib ^^ 3) demo_world)) = int 3 \<and>
        trotter_error (fst ((evolve toy_lib ^^ 3) demo_world)) =
          real 3 * step_trotter_error demo_propagator \<and>
        trotter_error (fst ((evolve toy_lib ^^ 3) demo_world)) \<le>
          trotter_error (fst ((evolve toy_lib ^^ Suc 3) demo_world))"
    using evolve_counts_steps [where lb = toy_lib and N = 3 and sw = demo_world
        and w = demo_store and psi = 0 and p = demo_propagator and cfg = demo_config
        and t = 0 and pkw = None]
      init_demo all nonneg
    by blast
  moreover have "step_trotter_error (propagator (fst demo_world)) =
                 step_trotter_error demo_propagator"
    "trotter_error (fst demo_world) = 0"
    by (simp_all add: demo_defs)
  ultimately show ?thesis
    using init_demo nonneg exact [of 1] exact [of 2] exact [of 3]
    by (simp add: e float_round_zero del: funpow.simps)
qed

text \<open>
  C6 as stated says that the accumulated error is N times the estimate. With the float
  nearest to one tenth as the estimate, ten time steps from construction accumulate
  \<^verbatim>\<open>0.9999999999999999\<close>, which is neither ten times the estimate nor the float
  product \<^verbatim>\<open>10 * 0.1\<close>, which is 1.
\<close>

theorem evolve_counts_steps_counterexample:
  "init toy_lib demo_store 0 tenth_propagator demo_config 0 None = Inr tenth_world \<and>
   step_trotter_error tenth_propagator = 3602879701896397 / 36028797018963968 \<and>
   float_round (step_trotter_error tenth_propagator) = step_trotter_error tenth_propagator \<and>
   trotter_error (fst ((evolve toy_lib ^^ 10) tenth_world)) =
     9007199254740991 / 9007199254740992 \<and>
   trotter_error (fst ((evolve toy_lib ^^ 10) tenth_world)) \<noteq>
     10 * step_trotter_error tenth_propagator \<and>
   trotter_error (fst ((evolve toy_lib ^^ 10) tenth_world)) \<noteq>
     float_mul 10 (step_trotter_error tenth_propagator)"
proof -
  have i: "init toy_lib demo_store 0 tenth_propagator demo_config 0 None = Inr tenth_world"
    by (simp add: init_def normalize_state_def lib_defs demo_defs tenth_defs)
  have e: "step_trotter_error tenth_propagator = 3602879701896397 / 36028797018963968"
    by (simp add: tenth_defs)
  have w: "step_trotter_error (propagator (fst tenth_world)) =
             3602879701896397 / 36028797018963968"
    "trotter_error (fst tenth_world) = 0"
    by (simp_all add: tenth_defs demo_defs)
  have fl: "float_round (3602879701896397 / 36028797018963968) =
            3602879701896397 / 36028797018963968"
    using float_round_representable [of 3602879701896397 "- 55"] by (simp add: power_int_minus)
  have t: "trotter_error (fst ((evolve toy_lib ^^ 10) tenth_world)) =
             9007199254740991 / 9007199254740992"
    by (simp only: evolve_funpow_count w tenth_sum)
  show ?thesis
    by (simp add: i e fl t tenth_product)
qed

section \<open>The cumulative overlap\<close>

text \<open>
  C7, as the code has it. If every compression of the chain returns an overlap greater
  than 0 and at most 1, then the cumulative overlap and the base overlap are 1 after
  construction, after every time step the cumulative overlap is at least 0 and at most
  1, and a time step never increases it: it multiplies it, as floats, by the overlap of
  that step, which is at least 0 and at most 1. The cumulative overlap need not stay
  greater than 0: see the counterexample below.
\<close>

theorem cumulative_overlap_bounds:
  assumes "init lb w psi p cfg t pkw = Inr sw"
    and "\<forall>kw c. 0 < snd (lib_compress lb kw c) \<and> snd (lib_compress lb kw c) \<le> 1"
  shows "cumulative_overlap (fst sw) = 1 \<and> base_overlap (fst sw) = 1 \<and>
         0 \<le> cumulative_overlap (fst ((evolve lb ^^ N) sw)) \<and>
         cumulative_overlap (fst ((evolve lb ^^ N) sw)) \<le> 1 \<and>
         cumulative_overlap (fst ((evolve lb ^^ Suc N) sw)) \<le>
           cumulative_overlap (fst ((evolve lb ^^ N) sw)) \<and>
         0 \<le> last_overlap (fst ((evolve lb ^^ Suc N) sw)) \<and>
         last_overlap (fst ((evolve lb ^^ Suc N) sw)) \<le> 1 \<and>
         cumulative_overlap (fst ((evolve lb ^^ Suc N) sw)) =
           float_mul (cumulative_overlap (fst ((evolve lb ^^ N) sw)))
             (last_overlap (fst ((evolve lb ^^ Suc N) sw)))"
  using evolve_funpow_cumulative [OF assms(2), of sw N] init_fields [OF assms(1)]
  by (simp add: float_round_one del: funpow.simps)

theorem cumulative_overlap_bounds_witness:
  "init toy_lib demo_store 0 demo_propagator demo_config 0 None = Inr demo_world \<and>
   (\<forall>kw c. 0 < snd (lib_compress toy_lib kw c) \<and> snd (lib_compress toy_lib kw c) \<le> 1) \<and>
   cumulative_overlap (fst demo_world) = 1 \<and>
   0 \<le> cumulative_overlap (fst ((evolve toy_lib ^^ 2) demo_world)) \<and>
   cumulative_overlap (fst ((evolve toy_lib ^^ 2) demo_world)) \<le> 1 \<and>
   cumulative_overlap (fst ((evolve toy_lib ^^ Suc 2) demo_world)) \<le>
     cumulative_overlap (fst ((evolve toy_lib ^^ 2) demo_world)) \<and>
   last_overlap (fst ((evolve toy_lib ^^ Suc 2) demo_world)) \<le> 1"
  using cumulative_overlap_bounds [OF init_demo toy_fidelity, where N = 2] init_demo toy_fidelity
  by blast

text \<open>
  C7 as stated says that the cumulative overlap stays greater than 0. With a library
  whose truncation reports the overlap \<open>2 powi (- 600)\<close>, one time step of the example
  compresses twice, the product of the two overlaps is below the smallest float and
  rounds to 0, and the cumulative overlap is 0.
\<close>

theorem cumulative_overlap_bounds_counterexample:
  "init lossy_lib demo_store 0 demo_propagator demo_config 0 None = Inr demo_world \<and>
   0 < snd (lib_compress lossy_lib 1 (4, 4, False)) \<and>
   snd (lib_compress lossy_lib 1 (4, 4, False)) \<le> 1 \<and>
   cumulative_overlap (fst (evolve lossy_lib demo_world)) = 0 \<and>
   \<not> 0 < cumulative_overlap (fst (evolve lossy_lib demo_world))"
proof -
  have c: "cumulative_overlap (fst (evolve lossy_lib demo_world)) =
      float_mul 1 (float_mul (float_mul 1 (1 / 2 ^ 600)) (1 / 2 ^ 600))"
    by (simp add: step_defs lib_defs demo_defs lossy_lib_def Let_def)
  have "float_mul 1 (1 / 2 ^ 600) = 1 / 2 ^ 600"
    using float_round_tiny by (simp add: float_mul_def)
  then have "cumulative_overlap (fst (evolve lossy_lib demo_world)) = 0"
    unfolding c by (simp only: tiny_product) (simp add: float_mul_def float_round_zero)
  then show ?thesis
    using init_lossy by (simp add: lossy_lib_def toy_lib_def)
qed

section \<open>Reset\<close>

text \<open>
  C5. A reset without a new state leaves the step counter, the three overlaps, the
  accumulated Trotter error, the counter of sweep turns and the address of the chain as
  they were, and the store is untouched: no chain changes and no library routine runs.
  What the base class does on this path is modelled from the spec.
\<close>

theorem reset_without_state_keeps:
  "stepno (fst (reset lb None cfg pkw sw)) = stepno (fst sw) \<and>
   cumulative_overlap (fst (reset lb None cfg pkw sw)) = cumulative_overlap (fst sw) \<and>
   last_overlap (fst (reset lb None cfg pkw sw)) = last_overlap (fst sw) \<and>
   base_overlap (fst (reset lb None cfg pkw sw)) = base_overlap (fst sw) \<and>
   trotter_error (fst (reset lb None cfg pkw sw)) = trotter_error (fst sw) \<and>
   pmps_compression_step (fst (reset lb None cfg pkw sw)) = pmps_compression_step (fst sw) \<and>
   psi_t (fst (reset lb None cfg pkw sw)) = psi_t (fst sw) \<and>
   snd (reset lb None cfg pkw sw) = snd sw"
  by (cases sw; cases cfg) (simp_all add: reset_def base_reset_def)

text \<open>The same on the example, with new compression parameters passed along.\<close>

theorem reset_without_state_keeps_witness:
  "stepno (fst (reset toy_lib None (Some (demo_config\<lparr>full_compression := False\<rparr>)) None
                  demo_world)) = 0 \<and>
   pmps_compression_step
     (fst (reset toy_lib None (Some (demo_config\<lparr>full_compression := False\<rparr>)) None
             demo_world)) = 1 \<and>
   psi_t (fst (reset toy_lib None (Some (demo_config\<lparr>full_compression := False\<rparr>)) None
                 demo_world)) = 0 \<and>
   snd (reset toy_lib None (Some (demo_config\<lparr>full_compression := False\<rparr>)) None demo_world) =
     snd demo_world"
  using reset_without_state_keeps [where lb = toy_lib
      and cfg = "Some (demo_config\<lparr>full_compression := False\<rparr>)" and pkw = None
      and sw = demo_world]
  by (simp add: demo_defs)




text \<open>
  C3, where the code departs from it. The orchestrator holds the chain at address 0 and
  is reset to the array at address 1, which has norm 2. The array is canonicalized, but
  the normalization of line 158 runs on address 0, the chain held before the call, and
  the chain that the orchestrator holds after the reset still has norm 2.
\<close>

theorem reset_new_chain_not_normalized:
  "psi_t (fst demo_world) = 0 \<and>
   psi_t (fst (reset toy_lib (Some 1) None None demo_world)) = 1 \<and>
   lib_norm toy_lib (heap (snd demo_world) 1) = 2 \<and>
   calls (snd (reset toy_lib (Some 1) None None demo_world)) =
     calls (snd demo_world) @ [CanonicalizeTo 1, NormDiv 0] \<and>
   lib_norm toy_lib
     (heap (snd (reset toy_lib (Some 1) None None demo_world))
        (psi_t (fst (reset toy_lib (Some 1) None None demo_world)))) = 2"
  by (simp add: reset_def base_reset_def normalize_state_def lib_defs demo_defs)

text \<open>
  C4, where the code departs from it. After one time step of the example the step
  counter is 1 and the cumulative overlap one sixteenth. A reset with a new state sets
  the step counter to 0, the three overlaps to 1 and the accumulated error to 0, but it
  sets the counter of sweep turns to 0, while construction sets it to 1.
\<close>

theorem reset_cadence_counter_not_initial:
  "init toy_lib demo_store 0 demo_propagator demo_config 0 None = Inr demo_world \<and>
   pmps_compression_step (fst demo_world) = 1 \<and>
   stepno (fst (evolve toy_lib demo_world)) = 1 \<and>
   cumulative_overlap (fst (evolve toy_lib demo_world)) = 1 / 16 \<and>
   stepno (fst (reset toy_lib (Some 1) None None (evolve toy_lib demo_world))) = 0 \<and>
   cumulative_overlap (fst (reset toy_lib (Some 1) None None (evolve toy_lib demo_world))) = 1 \<and>
   last_overlap (fst (reset toy_lib (Some 1) None None (evolve toy_lib demo_world))) = 1 \<and>
   base_overlap (fst (reset toy_lib (Some 1) None None (evolve toy_lib demo_world))) = 1 \<and>
   trotter_error (fst (reset toy_lib (Some 1) None None (evolve toy_lib demo_world))) = 0 \<and>
   pmps_compression_step
     (fst (reset toy_lib (Some 1) None None (evolve toy_lib demo_world))) = 0"
proof -
  have step: "fst (evolve toy_lib demo_world) =
      demo_tpmps\<lparr>psi_t := 9, stepno := 1, cumulative_overlap := 1 / 16, last_overlap := 1 / 16,
                 trotter_error := 1 / 1048576\<rparr>"
    by (simp add: step_defs lib_defs demo_defs float_simps Let_def)
  have after: "fst (reset toy_lib (Some 1) None None (evolve toy_lib demo_world)) =
      (fst (evolve toy_lib demo_world))\<lparr>pmps_compression_step := 0, last_overlap := 1,
         cumulative_overlap := 1, base_overlap := 1, trotter_error := 0, stepno := 0,
         psi_t := 1\<rparr>"
    by (cases "evolve toy_lib demo_world")
       (simp add: reset_def base_reset_def normalize_state_def)
  show ?thesis
    unfolding after step using init_demo by (simp add: demo_defs)
qed

end
